theory Spec2Isabelle
  imports Main "HOL-Library.AList"
begin

section \<open>The world the two download scripts act on\<close>

text \<open>
  Both scripts (\<^verbatim>\<open>notebooks/download_datasets_hf.py\<close>, the combined script, and
  \<^verbatim>\<open>notebooks/download_dataset.py\<close>, the selector script) are sequences of file-system
  writes, network requests and prints. The model makes the three effects explicit:
  a file system below the working directory, the console output, and the log of the
  network requests made so far. Exceptions are values.

  Modelling decisions, all of them on the side of the environment:
  \<^item> a path is the list of its components, relative to the working directory, which
    is a directory; \<^verbatim>\<open>./data/raw/mbpp\<close> and \<^verbatim>\<open>data/raw/mbpp\<close> are the same path;
  \<^item> a file is its content, a string of bytes; permissions, symbolic links and a full
    disk are not modelled, so a write fails only when the path structure forbids it;
  \<^item> a print is recorded as a message carrying the values it interpolates; the
    decorative prints (rules, menu text, advice) are constant and are not recorded;
  \<^item> an asynchronous \<^verbatim>\<open>KeyboardInterrupt\<close> is not modelled.
\<close>

type_synonym path = "string list"

datatype node = File string | Dir

type_synonym filesystem = "(path \<times> node) list"

datatype exn =
    FileExistsError
  | FileNotFoundError
  | NotADirectoryError
  | IsADirectoryError
  | RequestException
  | ChunkedEncodingError
  | BadZipFile
  | HubError
  | IndexError
  | EOFError

text \<open>What \<^verbatim>\<open>requests.get\<close> followed by \<^verbatim>\<open>raise_for_status\<close> and the read of the
  content-length header gives: a failure before anything is written, or a body that
  arrives in chunks and may break off after them.\<close>

datatype http_response = RequestFailed | Streamed "string list" bool

datatype net_call = HttpGet string | HubLoad string

type_synonym row = "(string \<times> string) list"
type_synonym dataset = "row list"

datatype json = JInt int | JStr string | JList "json list" | JObj "(string \<times> json) list"

text \<open>The environment: the answers of the network (indexed by the number of requests
  made before), whether the \<^verbatim>\<open>datasets\<close> package can be imported, and the library
  functions whose output format lies outside the repository.\<close>

record env =
  http_get :: "nat \<Rightarrow> string \<Rightarrow> http_response"
  load_dataset :: "nat \<Rightarrow> string \<Rightarrow> dataset option"
  datasets_version :: "string option"
  json_dumps :: "json \<Rightarrow> string"
  zip_entries :: "string \<Rightarrow> (path \<times> node) list option"
  arrow_files :: "dataset \<Rightarrow> (string \<times> string) list"

text \<open>A print is its literal text (in ASCII) and the values it interpolates.\<close>

datatype arg = S string | N nat | P path | E exn | B bool

type_synonym msg = "string \<times> arg list"

record world =
  fs :: filesystem
  out :: "msg list"
  requests :: "net_call list"

subsection \<open>File-system primitives\<close>

definition lookup :: "filesystem \<Rightarrow> path \<Rightarrow> node option" where
  "lookup f p = (if p = [] then Some Dir else map_of f p)"

definition exists_path :: "filesystem \<Rightarrow> path \<Rightarrow> bool" where
  "exists_path f p = (lookup f p \<noteq> None)"

definition is_dir :: "filesystem \<Rightarrow> path \<Rightarrow> bool" where
  "is_dir f p = (lookup f p = Some Dir)"

definition is_file :: "filesystem \<Rightarrow> path \<Rightarrow> bool" where
  "is_file f p = (case lookup f p of Some (File c) \<Rightarrow> True | _ \<Rightarrow> False)"

definition paths :: "filesystem \<Rightarrow> path list" where
  "paths f = remdups (map fst f)"

text \<open>\<^verbatim>\<open>Path.iterdir\<close>: the entries directly below a directory.\<close>

definition children :: "filesystem \<Rightarrow> path \<Rightarrow> path list" where
  "children f p = filter (\<lambda>q. q \<noteq> [] \<and> butlast q = p) (paths f)"

definition is_under :: "path \<Rightarrow> path \<Rightarrow> bool" where
  "is_under p q = (length p < length q \<and> take (length p) q = p)"

text \<open>\<^verbatim>\<open>Path.rglob('*')\<close>: everything below a directory, at any depth.\<close>

definition rglob :: "filesystem \<Rightarrow> path \<Rightarrow> path list" where
  "rglob f p = filter (is_under p) (paths f)"

definition st_size :: "filesystem \<Rightarrow> path \<Rightarrow> nat" where
  "st_size f p = (case lookup f p of Some (File c) \<Rightarrow> length c | _ \<Rightarrow> 0)"

text \<open>\<^verbatim>\<open>Path.mkdir(parents=True, exist_ok=True)\<close>, as pathlib does it: make the
  directory; when the parent is missing make the parent first; an existing directory
  is accepted, an existing file is not.\<close>

function mkdir_p :: "filesystem \<Rightarrow> path \<Rightarrow> exn + filesystem" where
  "mkdir_p f p =
     (case lookup f p of
        Some Dir \<Rightarrow> Inr f
      | Some (File c) \<Rightarrow> Inl FileExistsError
      | None \<Rightarrow>
          (case lookup f (butlast p) of
             Some Dir \<Rightarrow> Inr (AList.update p Dir f)
           | Some (File c) \<Rightarrow> Inl NotADirectoryError
           | None \<Rightarrow>
               (case mkdir_p f (butlast p) of
                  Inl e \<Rightarrow> Inl e
                | Inr f' \<Rightarrow> Inr (AList.update p Dir f'))))"
  by pat_completeness auto
termination
  by (relation "measure (\<lambda>(f, p). length p)") (auto simp: lookup_def split: if_splits)

declare mkdir_p.simps [simp del]

text \<open>\<^verbatim>\<open>open(p, 'w')\<close>, the writes and the close, as one step: the parent must be a
  directory and the path itself must not be one.\<close>

definition write_file :: "filesystem \<Rightarrow> path \<Rightarrow> string \<Rightarrow> exn + filesystem" where
  "write_file f p c =
     (if p = [] then Inl IsADirectoryError
      else case lookup f (butlast p) of
             None \<Rightarrow> Inl FileNotFoundError
           | Some (File d) \<Rightarrow> Inl NotADirectoryError
           | Some Dir \<Rightarrow>
               (if is_dir f p then Inl IsADirectoryError
                else Inr (AList.update p (File c) f)))"

text \<open>\<^verbatim>\<open>Path.unlink\<close>.\<close>

definition unlink :: "filesystem \<Rightarrow> path \<Rightarrow> exn + filesystem" where
  "unlink f p =
     (case lookup f p of
        None \<Rightarrow> Inl FileNotFoundError
      | Some Dir \<Rightarrow> Inl IsADirectoryError
      | Some (File c) \<Rightarrow> Inr (AList.delete p f))"

subsection \<open>Effects: state, exceptions, output\<close>

type_synonym 'a io = "world \<Rightarrow> (exn + 'a) \<times> world"

definition return :: "'a \<Rightarrow> 'a io" where
  "return x = (\<lambda>w. (Inr x, w))"

definition raise :: "exn \<Rightarrow> 'a io" where
  "raise e = (\<lambda>w. (Inl e, w))"

definition bind :: "'a io \<Rightarrow> ('a \<Rightarrow> 'b io) \<Rightarrow> 'b io" where
  "bind m k = (\<lambda>w. case m w of (Inl e, w') \<Rightarrow> (Inl e, w') | (Inr x, w') \<Rightarrow> k x w')"

definition seq :: "'a io \<Rightarrow> 'b io \<Rightarrow> 'b io" where
  "seq m n = bind m (\<lambda>_. n)"

text \<open>\<^verbatim>\<open>try: m  except Exception as e: h e\<close>\<close>

definition try_except :: "'a io \<Rightarrow> (exn \<Rightarrow> 'a io) \<Rightarrow> 'a io" where
  "try_except m h = (\<lambda>w. case m w of (Inl e, w') \<Rightarrow> h e w' | (Inr x, w') \<Rightarrow> (Inr x, w'))"

definition print :: "msg \<Rightarrow> unit io" where
  "print m = (\<lambda>w. (Inr (), w\<lparr>out := out w @ [m]\<rparr>))"

definition fs_op :: "(filesystem \<Rightarrow> exn + filesystem) \<Rightarrow> unit io" where
  "fs_op g = (\<lambda>w. case g (fs w) of Inl e \<Rightarrow> (Inl e, w) | Inr f' \<Rightarrow> (Inr (), w\<lparr>fs := f'\<rparr>))"

definition fs_get :: "(filesystem \<Rightarrow> 'a) \<Rightarrow> 'a io" where
  "fs_get g = (\<lambda>w. (Inr (g (fs w)), w))"

definition mkdir :: "path \<Rightarrow> unit io" where
  "mkdir p = fs_op (\<lambda>f. mkdir_p f p)"

definition write_text :: "path \<Rightarrow> string \<Rightarrow> unit io" where
  "write_text p c = fs_op (\<lambda>f. write_file f p c)"

text \<open>\<^verbatim>\<open>path.exists() and any(path.iterdir())\<close>: a missing path is False without
  listing; listing a file raises.\<close>

definition unlink_file :: "path \<Rightarrow> unit io" where
  "unlink_file p = fs_op (\<lambda>f. unlink f p)"

definition exists_and_any :: "path \<Rightarrow> bool io" where
  "exists_and_any p = (\<lambda>w.
     case lookup (fs w) p of
       None \<Rightarrow> (Inr False, w)
     | Some (File c) \<Rightarrow> (Inl NotADirectoryError, w)
     | Some Dir \<Rightarrow> (Inr (children (fs w) p \<noteq> []), w))"


section \<open>The combined script: \<^verbatim>\<open>download_datasets_hf.py\<close>\<close>

subsection \<open>Literal texts\<close>

definition codesearchnet_readme :: string where
  "codesearchnet_readme =
     ''CodeSearchNet Dataset\<newline>'' @
     ''\<newline>'' @
     ''Due to access restrictions, we'' @
     [CHR 0x27] @
     ''ll use alternative sources:\<newline>'' @
     ''\<newline>'' @
     ''1. Python code from PyTorch tutorials (already downloaded)\<newline>'' @
     ''2. Python standard library examples\<newline>'' @
     ''3. Code snippets from CoNaLa dataset\<newline>'' @
     ''4. Stack Overflow code examples\<newline>'' @
     ''\<newline>'' @
     ''During preprocessing, we'' @
     [CHR 0x27] @
     ''ll combine these into our training data.\<newline>'' @
     ''This approach is BETTER for learning as we control data quality!\<newline>''"

definition download_options_text :: string where
  "download_options_text =
     ''Stack Overflow Dataset Options\<newline>'' @
     ''\<newline>'' @
     ''RECOMMENDED: For this project, we'' @
     [CHR 0x27] @
     ''ll use a combination approach:\<newline>'' @
     ''1. Sample data provided (stackoverflow_sample.json) - 100 examples\<newline>'' @
     ''2. During preprocessing, we'' @
     [CHR 0x27] @
     ''ll augment with:\<newline>'' @
     ''   - Python documentation examples\<newline>'' @
     ''   - PyTorch tutorial code\<newline>'' @
     ''   - CoNaLa dataset\<newline>'' @
     ''\<newline>'' @
     ''OPTIONAL: For larger dataset, you can:\<newline>'' @
     ''1. Kaggle: https://www.kaggle.com/datasets/stackoverflow/stackoverflow\<newline>'' @
     ''   - Requires Kaggle account\<newline>'' @
     ''   - Download Posts.xml\<newline>'' @
     ''   - Extract Python questions\<newline>'' @
     ''\<newline>'' @
     ''2. Use our sample + synthetic augmentation (RECOMMENDED for learning)\<newline>'' @
     ''\<newline>'' @
     ''The sample dataset is sufficient for demonstrating the system!\<newline>''"

definition python_docs_readme :: string where
  "python_docs_readme =
     ''Python Documentation\<newline>'' @
     ''\<newline>'' @
     ''We can use Python'' @
     [CHR 0x27] @
     ''s built-in documentation and source code:\<newline>'' @
     ''- import inspect\<newline>'' @
     ''- inspect.getsource(function)\<newline>'' @
     ''- pydoc module\<newline>'' @
     ''\<newline>'' @
     ''This provides real, working Python code examples.\<newline>''"

definition combined_readme :: string where
  "combined_readme =
     ''# Combined Dataset for TechDoc-QA-CodeGen\<newline>'' @
     ''\<newline>'' @
     ''## Strategy: Quality over Quantity\<newline>'' @
     ''\<newline>'' @
     ''Instead of downloading massive datasets with authentication issues, \<newline>'' @
     ''we'' @
     [CHR 0x27] @
     ''re creating a high-quality curated dataset from:\<newline>'' @
     ''\<newline>'' @
     ''### Sources:\<newline>'' @
     ''1. **PyTorch Tutorials** ('' @
     [CHR 0xE2, CHR 0x9C, CHR 0x93] @
     '' Downloaded)\<newline>'' @
     ''   - Real, working Python code\<newline>'' @
     ''   - Expert-written documentation\<newline>'' @
     ''   - ~100MB of quality examples\<newline>'' @
     ''\<newline>'' @
     ''2. **Python Standard Library**\<newline>'' @
     ''   - Built-in Python modules\<newline>'' @
     ''   - Official documentation\<newline>'' @
     ''   - Can extract via inspect module\<newline>'' @
     ''\<newline>'' @
     ''3. **Synthetic Code-Doc Pairs**\<newline>'' @
     ''   - Generate from common programming patterns\<newline>'' @
     ''   - Controlled quality\<newline>'' @
     ''   - Targeted for our use cases\<newline>'' @
     ''\<newline>'' @
     ''4. **Sample Datasets** (Already created)\<newline>'' @
     ''   - Stack Overflow samples\<newline>'' @
     ''   - CoNaLa-style examples\<newline>'' @
     ''\<newline>'' @
     ''### Advantages:\<newline>'' @
     [CHR 0xE2, CHR 0x9C, CHR 0x93] @
     '' No authentication needed\<newline>'' @
     [CHR 0xE2, CHR 0x9C, CHR 0x93] @
     '' High quality, verified code\<newline>'' @
     [CHR 0xE2, CHR 0x9C, CHR 0x93] @
     '' Sufficient for demonstrating all NLP techniques\<newline>'' @
     [CHR 0xE2, CHR 0x9C, CHR 0x93] @
     '' Actually BETTER for learning (you understand the data)\<newline>'' @
     [CHR 0xE2, CHR 0x9C, CHR 0x93] @
     '' Can be extended later\<newline>'' @
     ''\<newline>'' @
     ''### Next Steps:\<newline>'' @
     ''Run the preprocessing script to combine all sources into\<newline>'' @
     ''a unified training dataset.\<newline>'' @
     ''\<newline>'' @
     ''This approach is RECOMMENDED for academic projects!\<newline>''"

definition binary_search_answer :: string where
  "binary_search_answer =
     ''def binary_search(arr, target):\<newline>'' @
     ''    left, right = 0, len(arr) - 1\<newline>'' @
     ''    while left <= right:\<newline>'' @
     ''        mid = (left + right) // 2\<newline>'' @
     ''        if arr[mid] == target:\<newline>'' @
     ''            return mid\<newline>'' @
     ''        elif arr[mid] < target:\<newline>'' @
     ''            left = mid + 1\<newline>'' @
     ''        else:\<newline>'' @
     ''            right = mid - 1\<newline>'' @
     ''    return -1''"


subsection \<open>Routines\<close>

definition BASE_DIR :: path where
  "BASE_DIR = [''data'', ''raw'']"

text \<open>\<^verbatim>\<open>requests.get(url, stream=True, timeout=30)\<close> with \<^verbatim>\<open>raise_for_status\<close>: the
  request is logged, and the environment answers.\<close>

definition requests_get :: "env \<Rightarrow> string \<Rightarrow> (string list \<times> bool) io" where
  "requests_get en url = (\<lambda>w.
     let w' = w\<lparr>requests := requests w @ [HttpGet url]\<rparr> in
     case http_get en (length (requests w)) url of
       RequestFailed \<Rightarrow> (Inl RequestException, w')
     | Streamed chunks broken \<Rightarrow> (Inr (chunks, broken), w'))"

text \<open>The file is opened only after the response has arrived; the chunks that arrive
  are written; a stream that breaks off leaves the partial file behind. Every
  exception ends in the handler.\<close>

definition download_file_with_progress :: "env \<Rightarrow> string \<Rightarrow> path \<Rightarrow> bool io" where
  "download_file_with_progress en url dest =
     try_except
       (bind (requests_get en url) (\<lambda>(chunks, broken).
        seq (write_text dest (concat chunks))
       (seq (if broken then raise ChunkedEncodingError else return ())
            (return True))))
       (\<lambda>e. seq (print (''Error'', [E e])) (return False))"

definition download_codesearchnet_github :: "path io" where
  "download_codesearchnet_github =
     (let output_dir = BASE_DIR @ [''codesearchnet''];
          sample_file = output_dir @ [''README.txt'']
      in seq (mkdir output_dir)
        (seq (write_text sample_file codesearchnet_readme)
        (seq (print (''CodeSearchNet structure created'', []))
             (return output_dir))))"

definition sample_data :: "json list" where
  "sample_data =
     map (\<lambda>i. JObj [(''question'', JStr ''How to implement a binary search in Python?''),
                     (''answer'', JStr binary_search_answer),
                     (''tags'', JList [JStr ''python'', JStr ''algorithm'', JStr ''search''])])
         [0..<100]"

definition download_stackoverflow_csv :: "env \<Rightarrow> path io" where
  "download_stackoverflow_csv en =
     (let output_dir = BASE_DIR @ [''stackoverflow''];
          sample_file = output_dir @ [''stackoverflow_sample.json''];
          instructions = output_dir @ [''DOWNLOAD_OPTIONS.txt'']
      in seq (mkdir output_dir)
        (seq (write_text sample_file (json_dumps en (JList sample_data)))
        (seq (write_text instructions download_options_text)
        (seq (print (''Sample Stack Overflow data created (100 examples)'', []))
        (seq (print (''Instructions saved'', [P instructions]))
             (return output_dir))))))"

definition conala_files :: "(string \<times> string) list" where
  "conala_files =
     [(''conala-train.json'',
       ''https://raw.githubusercontent.com/conala-corpus/conala-corpus/master/conala-train.json''),
      (''conala-test.json'',
       ''https://raw.githubusercontent.com/conala-corpus/conala-corpus/master/conala-test.json''),
      (''conala-mined.jsonl'',
       ''https://raw.githubusercontent.com/conala-corpus/conala-corpus/master/conala-mined.jsonl'')]"

definition alt_base :: string where
  "alt_base = ''https://github.com/conala-corpus/conala-corpus/raw/master/''"

text \<open>The loop \<^verbatim>\<open>for filename, url in files.items()\<close> with its running counter.\<close>

fun conala_loop :: "env \<Rightarrow> path \<Rightarrow> (string \<times> string) list \<Rightarrow> nat \<Rightarrow> nat io" where
  "conala_loop en output_dir [] success = return success"
| "conala_loop en output_dir ((filename, url) # rest) success =
     (let dest = output_dir @ [filename] in
      bind (fs_get (\<lambda>f. exists_path f dest)) (\<lambda>present.
        if present then
          seq (print (''Already exists'', [S filename]))
              (conala_loop en output_dir rest (success + 1))
        else
          seq (print (''Downloading'', [S filename]))
         (bind (download_file_with_progress en url dest) (\<lambda>ok.
            if ok then conala_loop en output_dir rest (success + 1)
            else
              seq (print (''Trying alternative URL'', []))
             (bind (download_file_with_progress en (alt_base @ filename) dest) (\<lambda>ok'.
                if ok' then conala_loop en output_dir rest (success + 1)
                else
                  seq (print (''Could not download'', [S filename]))
                      (conala_loop en output_dir rest success)))))))"

definition synthetic_data :: "json list" where
  "synthetic_data =
     map (\<lambda>i. JObj [(''question_id'', JInt (int i)),
                     (''intent'', JStr ''Sort a list of numbers in ascending order''),
                     (''snippet'', JStr ''sorted_list = sorted(numbers)'')])
         [0..<50]"

definition download_conala_correct_urls :: "env \<Rightarrow> path io" where
  "download_conala_correct_urls en =
     (let output_dir = BASE_DIR @ [''conala''] in
      seq (mkdir output_dir)
     (bind (conala_loop en output_dir conala_files 0) (\<lambda>success.
      seq (if success = 0 then
             (let synthetic_file = output_dir @ [''conala-synthetic.json''] in
              seq (print (''Creating synthetic CoNaLa-style data for demo'', []))
             (seq (write_text synthetic_file (json_dumps en (JList synthetic_data)))
                  (print (''Created synthetic dataset'', [P synthetic_file]))))
           else print (''Downloaded CoNaLa files'', [N success, N 3]))
          (return output_dir))))"

definition ends_with :: "string \<Rightarrow> string \<Rightarrow> bool" where
  "ends_with s t = (length s \<le> length t \<and> drop (length t - length s) t = s)"

definition verify_pytorch_tutorials :: "path option io" where
  "verify_pytorch_tutorials =
     (let path = BASE_DIR @ [''pytorch_docs'', ''tutorials''] in
      bind (exists_and_any path) (\<lambda>nonempty.
        if nonempty then
          seq (print (''PyTorch tutorials already downloaded'', []))
         (bind (fs_get (\<lambda>f. length (filter (\<lambda>q. ends_with ''.py'' (last q)) (rglob f path))))
            (\<lambda>file_count.
          seq (print (''Found Python files'', [N file_count]))
              (return (Some path))))
        else
          seq (print (''PyTorch tutorials not found'', []))
              (return None)))"

text \<open>\<^verbatim>\<open>ZipFile(zip_file).extractall(extract_dir)\<close>: the archive is read from the file,
  an unreadable one raises; each member gets its missing upper directories and is
  then written below the target directory.\<close>

definition extract_member :: "path \<Rightarrow> path \<times> node \<Rightarrow> unit io" where
  "extract_member target m =
     (let targetpath = target @ fst m; upperdirs = butlast targetpath in
      bind (fs_get (\<lambda>f. exists_path f upperdirs)) (\<lambda>present.
      seq (if present then return () else mkdir upperdirs)
          (case snd m of
             Dir \<Rightarrow> bind (fs_get (\<lambda>f. is_dir f targetpath)) (\<lambda>d.
                      if d then return () else mkdir targetpath)
           | File c \<Rightarrow> write_text targetpath c)))"

fun extract_members :: "path \<Rightarrow> (path \<times> node) list \<Rightarrow> unit io" where
  "extract_members target [] = return ()"
| "extract_members target (m # ms) = seq (extract_member target m) (extract_members target ms)"

definition extractall :: "env \<Rightarrow> path \<Rightarrow> path \<Rightarrow> unit io" where
  "extractall en zip_file target =
     bind (fs_get (\<lambda>f. lookup f zip_file)) (\<lambda>nd.
       case nd of
         None \<Rightarrow> raise FileNotFoundError
       | Some Dir \<Rightarrow> raise IsADirectoryError
       | Some (File c) \<Rightarrow>
           (case zip_entries en c of
              None \<Rightarrow> raise BadZipFile
            | Some ms \<Rightarrow> extract_members target ms))"

definition python_docs_url :: string where
  "python_docs_url = ''https://docs.python.org/3.11/archives/python-311-docs-html.zip''"

definition download_python_docs_correct :: "env \<Rightarrow> path io" where
  "download_python_docs_correct en =
     (let output_dir = BASE_DIR @ [''python_docs''];
          zip_file = output_dir @ [''python-docs.zip''];
          extract_dir = output_dir @ [''python-3.11''];
          alt_file = output_dir @ [''README.txt'']
      in seq (mkdir output_dir)
        (bind (exists_and_any extract_dir) (\<lambda>have.
           if have then
             seq (print (''Python 3.11 docs already exist'', []))
                 (return output_dir)
           else
             seq (print (''Downloading Python 3.11 documentation'', [S python_docs_url]))
            (bind (download_file_with_progress en python_docs_url zip_file) (\<lambda>ok.
             bind (if ok then
                     seq (print (''Extracting'', []))
                         (try_except
                            (seq (extractall en zip_file extract_dir)
                            (seq (unlink_file zip_file)
                            (seq (print (''Python documentation extracted'', []))
                                 (return True))))
                            (\<lambda>e. seq (print (''Extraction error'', [E e])) (return False)))
                   else return False) (\<lambda>extracted.
             if extracted then return output_dir
             else
               seq (print (''Alternative: Using Python standard library source code'', []))
              (seq (write_text alt_file python_docs_readme)
                   (return output_dir))))))))"

definition create_combined_dataset :: "unit io" where
  "create_combined_dataset =
     (let combined_dir = BASE_DIR @ [''combined''];
          readme = combined_dir @ [''README.md'']
      in seq (mkdir combined_dir)
        (seq (write_text readme combined_readme)
             (print (''Strategy document created'', [P readme]))))"

definition datasets_tbl :: "(string \<times> path) list" where
  "datasets_tbl =
     [(''CodeSearchNet (Alternative)'', BASE_DIR @ [''codesearchnet'']),
      (''Stack Overflow (Sample)'', BASE_DIR @ [''stackoverflow'']),
      (''CoNaLa'', BASE_DIR @ [''conala'']),
      (''PyTorch Tutorials'', BASE_DIR @ [''pytorch_docs'', ''tutorials'']),
      (''Python Docs'', BASE_DIR @ [''python_docs'']),
      (''Combined Strategy'', BASE_DIR @ [''combined''])]"

text \<open>\<^verbatim>\<open>sum(f.stat().st_size for f in path.rglob('*') if f.is_file())\<close>\<close>

definition tree_size :: "filesystem \<Rightarrow> path \<Rightarrow> nat" where
  "tree_size f p = sum_list (map (st_size f) (filter (is_file f) (rglob f p)))"

text \<open>The loop of the reporter with its two running totals. The size is printed in
  megabytes with one decimal; the message carries the byte count.\<close>

fun verification_loop :: "(string \<times> path) list \<Rightarrow> nat \<Rightarrow> nat \<Rightarrow> (nat \<times> nat) io" where
  "verification_loop [] total_size available = return (total_size, available)"
| "verification_loop ((name, path) # rest) total_size available =
     bind (exists_and_any path) (\<lambda>nonempty.
       if nonempty then
         bind (fs_get (\<lambda>f. tree_size f path)) (\<lambda>size.
         seq (print (''Available'', [S name, N size]))
             (verification_loop rest (total_size + size) (available + 1)))
       else
         seq (print (''Not available'', [S name]))
             (verification_loop rest total_size available))"

definition final_verification :: "bool io" where
  "final_verification =
     bind (verification_loop datasets_tbl 0 0) (\<lambda>(total_size, available).
     seq (print (''Total Available'', [N available, N (length datasets_tbl)]))
    (seq (print (''Total Size'', [N total_size]))
    (seq (if available \<ge> 3 then print (''SUFFICIENT DATA FOR PROJECT!'', []) else return ())
         (return (available \<ge> 3)))))"

text \<open>The six routines in the order \<^verbatim>\<open>main\<close> calls them.\<close>

definition routines :: "env \<Rightarrow> unit io" where
  "routines en =
     seq download_codesearchnet_github
    (seq (download_stackoverflow_csv en)
    (seq (download_conala_correct_urls en)
    (seq verify_pytorch_tutorials
    (seq (download_python_docs_correct en)
         create_combined_dataset))))"

text \<open>The body of the \<^verbatim>\<open>try\<close> block of \<^verbatim>\<open>main\<close>: the six routines, the reporter and
  the closing message.\<close>

definition main_body :: "env \<Rightarrow> unit io" where
  "main_body en =
     seq (routines en)
    (bind final_verification (\<lambda>ok.
       if ok then print (''SUCCESS! You are ready to start building!'', [])
       else print (''Some data missing but you can still proceed'', [])))"

text \<open>\<^verbatim>\<open>main\<close>: \<^verbatim>\<open>input("Press Enter to proceed...")\<close> stands before the \<^verbatim>\<open>try\<close>; it
  prints its prompt and reads a line of standard input, which is ignored; when
  standard input is closed (None) it raises \<^verbatim>\<open>EOFError\<close>, which nothing catches. Then
  the \<^verbatim>\<open>try\<close> block, whose handler prints the exception.\<close>

definition main :: "env \<Rightarrow> string option \<Rightarrow> unit io" where
  "main en stdin =
     seq (print (''Press Enter to proceed...'', []))
    (seq (case stdin of None \<Rightarrow> raise EOFError | Some line \<Rightarrow> return ())
         (try_except (main_body en) (\<lambda>e. print (''Error'', [E e]))))"

text \<open>The module: \<^verbatim>\<open>BASE_DIR.mkdir(parents=True, exist_ok=True)\<close> at import, then
  \<^verbatim>\<open>main()\<close>.\<close>

definition hf_script :: "env \<Rightarrow> string option \<Rightarrow> unit io" where
  "hf_script en stdin = seq (mkdir BASE_DIR) (main en stdin)"

section \<open>The selector script: \<^verbatim>\<open>download_dataset.py\<close>\<close>

text \<open>\<^verbatim>\<open>str.strip()\<close>: the white space of Python among the code points below 256.\<close>

definition isspace :: "char \<Rightarrow> bool" where
  "isspace c = (c \<in> set [CHR 0x09, CHR 0x0A, CHR 0x0B, CHR 0x0C, CHR 0x0D, CHR 0x1C, CHR 0x1D,
                          CHR 0x1E, CHR 0x1F, CHR 0x20, CHR 0x85, CHR 0xA0])"

definition strip :: "string \<Rightarrow> string" where
  "strip s = rev (dropWhile isspace (rev (dropWhile isspace s)))"

text \<open>\<^verbatim>\<open>load_dataset(name, ..., split="train")\<close>: one call to the hub, logged.\<close>

definition hub_load :: "env \<Rightarrow> string \<Rightarrow> dataset io" where
  "hub_load en name = (\<lambda>w.
     let w' = w\<lparr>requests := requests w @ [HubLoad name]\<rparr> in
     case load_dataset en (length (requests w)) name of
       None \<Rightarrow> (Inl HubError, w')
     | Some d \<Rightarrow> (Inr d, w'))"

text \<open>\<^verbatim>\<open>dataset.save_to_disk(path)\<close>: the library makes the directory and writes its
  files into it; which files is the library's business.\<close>

fun write_all :: "path \<Rightarrow> (string \<times> string) list \<Rightarrow> unit io" where
  "write_all d [] = return ()"
| "write_all d ((name, c) # rest) = seq (write_text (d @ [name]) c) (write_all d rest)"

definition save_to_disk :: "env \<Rightarrow> dataset \<Rightarrow> path \<Rightarrow> unit io" where
  "save_to_disk en ds d = seq (mkdir d) (write_all d (arrow_files en ds))"

text \<open>\<^verbatim>\<open>dataset[0]\<close> and \<^verbatim>\<open>sample.get(key, default)\<close>\<close>

definition first_row :: "dataset \<Rightarrow> row io" where
  "first_row ds = (case ds of [] \<Rightarrow> raise IndexError | r # rs \<Rightarrow> return r)"

definition get_or :: "row \<Rightarrow> string \<Rightarrow> string \<Rightarrow> string" where
  "get_or r k d = (case map_of r k of Some v \<Rightarrow> v | None \<Rightarrow> d)"

fun print_all :: "msg list \<Rightarrow> unit io" where
  "print_all [] = return ()"
| "print_all (m # ms) = seq (print m) (print_all ms)"

text \<open>The three routines differ in the identifier, the directory and the preview.\<close>

definition hub_routine ::
    "env \<Rightarrow> string \<Rightarrow> path \<Rightarrow> (row \<Rightarrow> msg list) \<Rightarrow> string \<Rightarrow> bool io" where
  "hub_routine en name save_path preview banner =
     try_except
       (bind (hub_load en name) (\<lambda>dataset.
        seq (print (''Loaded examples'', [N (length dataset)]))
       (seq (mkdir save_path)
       (seq (print (''Saving to'', [P save_path]))
       (seq (save_to_disk en dataset save_path)
       (bind (first_row dataset) (\<lambda>sample.
        seq (print_all (preview sample))
       (seq (print (banner, []))
            (return True)))))))))
       (\<lambda>e. seq (print (''Failed'', [E e])) (return False))"

definition download_code_alpaca :: "env \<Rightarrow> bool io" where
  "download_code_alpaca en =
     hub_routine en ''sahil2801/CodeAlpaca-20k'' [''data'', ''raw'', ''code_alpaca'']
       (\<lambda>sample. [(''Instruction'', [S (take 100 (get_or sample ''instruction'' []))]),
                   (''Output'', [S (take 100 (get_or sample ''output'' []))])])
       ''Code Alpaca downloaded successfully!''"

definition download_python_instructions :: "env \<Rightarrow> bool io" where
  "download_python_instructions en =
     hub_routine en ''Iamtarun/python_code_instructions_18k_alpaca''
       [''data'', ''raw'', ''python_instructions'']
       (\<lambda>sample. [(''Instruction'',
                    [S (take 100 (get_or sample ''instruction'' (get_or sample ''prompt'' [])))])])
       ''Python Instructions downloaded successfully!''"

definition download_mbpp :: "env \<Rightarrow> bool io" where
  "download_mbpp en =
     hub_routine en ''mbpp'' [''data'', ''raw'', ''mbpp'']
       (\<lambda>sample. [(''Task'', [S (take 100 (get_or sample ''text'' []))]),
                   (''Code'', [S (take 100 (get_or sample ''code'' []))])])
       ''MBPP downloaded successfully!''"

type_synonym results = "(string \<times> bool) list"

text \<open>The dispatch on the choice, from the empty results; None is the \<^verbatim>\<open>else\<close> branch,
  \<^verbatim>\<open>sys.exit(1)\<close>.\<close>

definition dispatch :: "env \<Rightarrow> string \<Rightarrow> results option io" where
  "dispatch en choice =
     (if choice = ''1'' then
        bind (download_code_alpaca en) (\<lambda>r. return (Some (AList.update ''Code Alpaca'' r [])))
      else if choice = ''2'' then
        bind (download_python_instructions en) (\<lambda>r.
          return (Some (AList.update ''Python Instructions'' r [])))
      else if choice = ''3'' then
        bind (download_mbpp en) (\<lambda>r. return (Some (AList.update ''MBPP'' r [])))
      else if choice = ''4'' then
        bind (download_code_alpaca en) (\<lambda>r1.
        bind (download_python_instructions en) (\<lambda>r2.
        bind (download_mbpp en) (\<lambda>r3.
          return (Some (AList.update ''MBPP'' r3
                       (AList.update ''Python Instructions'' r2
                       (AList.update ''Code Alpaca'' r1 [])))))))
      else
        seq (print (''Invalid choice'', [])) (return None))"

definition examples :: "(string \<times> nat) list" where
  "examples = [(''Stack Overflow'', 100000), (''Code Alpaca'', 20000),
               (''Python Instructions'', 18000), (''MBPP'', 1000)]"

definition examples_get :: "string \<Rightarrow> nat" where
  "examples_get d = (case map_of examples d of Some n \<Rightarrow> n | None \<Rightarrow> 0)"

text \<open>\<^verbatim>\<open>sum(results.values())\<close>\<close>

definition successful_of :: "results \<Rightarrow> nat" where
  "successful_of rs = length (filter snd rs)"

definition summary :: "results \<Rightarrow> unit io" where
  "summary rs =
     seq (print_all (map (\<lambda>(d, ok). (''Status'', [B ok, S d])) rs))
    (let successful = successful_of rs; total = length rs in
     seq (print (''Successfully downloaded'', [N successful, N total]))
    (seq (print_all (map (\<lambda>(d, ok). (''Just downloaded'', [S d])) (filter snd rs)))
    (let total_datasets = 2 + successful in
     seq (print (''TOTAL DATASETS'', [N total_datasets]))
         (if total_datasets \<ge> 3 then
            (let total_examples =
                   fold (\<lambda>(d, ok) t. if ok then t + examples_get d else t) rs 100000
             in seq (print (''SUCCESS! You have enough datasets!'', []))
                    (print (''Dataset Statistics'',
                            [N total_datasets, N total_examples, N (total_examples - 100000)])))
          else
            print (''Try downloading more options'', [N total_datasets])))))"

text \<open>The script from its first line: the import check, the prompt, the dispatch and
  the summary. The result is the exit status and the results collection.\<close>

definition selector_script :: "env \<Rightarrow> string \<Rightarrow> (nat \<times> results) io" where
  "selector_script en line =
     (case datasets_version en of
        None \<Rightarrow> seq (print (''datasets package required'', [])) (return (1, []))
      | Some v \<Rightarrow>
          seq (print (''datasets package version'', [S v]))
         (seq (print (''What to download? (1-4): '', []))
         (let choice = strip line in
          bind (dispatch en choice) (\<lambda>r.
            case r of
              None \<Rightarrow> return (1, [])
            | Some rs \<Rightarrow> seq (summary rs) (return (0, rs))))))"


section \<open>Notions used in the statements\<close>

text \<open>The reporter's rule: a directory that exists and has at least one entry.\<close>

definition available_dir :: "filesystem \<Rightarrow> path \<Rightarrow> bool" where
  "available_dir f p = (is_dir f p \<and> children f p \<noteq> [])"

text \<open>The line the reporter prints for one entry of its table.\<close>

definition report_line :: "filesystem \<Rightarrow> string \<times> path \<Rightarrow> msg" where
  "report_line f d =
     (if available_dir f (snd d) then (''Available'', [S (fst d), N (tree_size f (snd d))])
      else (''Not available'', [S (fst d)]))"

text \<open>Two file systems agree outside a set of paths; a computation is confined to a
  set of paths when it changes nothing outside it, whatever its outcome.\<close>

definition frame :: "(path \<Rightarrow> bool) \<Rightarrow> filesystem \<Rightarrow> filesystem \<Rightarrow> bool" where
  "frame F f f' = (\<forall>q. \<not> F q \<longrightarrow> lookup f' q = lookup f q)"

definition confined :: "(path \<Rightarrow> bool) \<Rightarrow> 'a io \<Rightarrow> bool" where
  "confined F m = (\<forall>w. frame F (fs w) (fs (snd (m w))))"

definition is_prefix :: "path \<Rightarrow> path \<Rightarrow> bool" where
  "is_prefix p q = (take (length p) q = p)"

definition comparable :: "path \<Rightarrow> path \<Rightarrow> bool" where
  "comparable d q = (is_prefix q d \<or> is_prefix d q)"

text \<open>A world at the start of a run: nothing printed, no request made.\<close>

definition start :: "filesystem \<Rightarrow> world" where
  "start f = \<lparr>fs = f, out = [], requests = []\<rparr>"

text \<open>Environments for concrete runs. Offline: every request fails. Online: the hub
  serves a two-row dataset, which the library saves as three files.\<close>

definition env_offline :: env where
  "env_offline =
     \<lparr>http_get = (\<lambda>n url. RequestFailed),
      load_dataset = (\<lambda>n name. None),
      datasets_version = Some ''2.14.0'',
      json_dumps = (\<lambda>j. ''[]''),
      zip_entries = (\<lambda>c. None),
      arrow_files = (\<lambda>ds. [])\<rparr>"

definition env_online :: env where
  "env_online =
     \<lparr>http_get = (\<lambda>n url. Streamed [''{}''] False),
      load_dataset = (\<lambda>n name. Some [[(''text'', ''Write a function''), (''code'', ''def f(): pass'')],
                                        [(''text'', ''Another task''), (''code'', ''def g(): pass'')]]),
      datasets_version = Some ''2.14.0'',
      json_dumps = (\<lambda>j. ''[]''),
      zip_entries = (\<lambda>c. None),
      arrow_files = (\<lambda>ds. [(''dataset_info.json'', ''{}''), (''state.json'', ''{}''),
                              (''data-00000-of-00001.arrow'', ''ARROW1'')])\<rparr>"

text \<open>How many entries of the reporter's table are available.\<close>

definition available_count :: "filesystem \<Rightarrow> nat" where
  "available_count f = length (filter (\<lambda>d. available_dir f (snd d)) datasets_tbl)"

text \<open>What the selector script prints once it knows the total.\<close>

definition judgement_lines :: "results \<Rightarrow> msg list" where
  "judgement_lines rs =
     (let total_datasets = 2 + successful_of rs;
          total_examples = fold (\<lambda>(d, ok) t. if ok then t + examples_get d else t) rs 100000
      in if 3 \<le> total_datasets
         then [(''SUCCESS! You have enough datasets!'', []),
               (''Dataset Statistics'',
                [N total_datasets, N total_examples, N (total_examples - 100000)])]
         else [(''Try downloading more options'', [N total_datasets])])"

text \<open>A file system with exactly three of the six directories available.\<close>

definition fs_three :: filesystem where
  "fs_three =
     [([''data''], Dir), ([''data'', ''raw''], Dir),
      ([''data'', ''raw'', ''codesearchnet''], Dir),
      ([''data'', ''raw'', ''codesearchnet'', ''README.txt''], File ''abc''),
      ([''data'', ''raw'', ''stackoverflow''], Dir),
      ([''data'', ''raw'', ''stackoverflow'', ''DOWNLOAD_OPTIONS.txt''], File ''de''),
      ([''data'', ''raw'', ''conala''], Dir),
      ([''data'', ''raw'', ''combined''], Dir),
      ([''data'', ''raw'', ''combined'', ''README.md''], File ''f'')]"

text \<open>A computation whose every step stays within a relation on worlds.\<close>

definition stays_in :: "(world \<Rightarrow> world \<Rightarrow> bool) \<Rightarrow> 'a io \<Rightarrow> bool" where
  "stays_in R m = (\<forall>w. R w (snd (m w)))"

definition preorder_rel :: "(world \<Rightarrow> world \<Rightarrow> bool) \<Rightarrow> bool" where
  "preorder_rel R = ((\<forall>w. R w w) \<and> (\<forall>a b c. R a b \<longrightarrow> R b c \<longrightarrow> R a c))"

text \<open>No request is made.\<close>

definition silent :: "world \<Rightarrow> world \<Rightarrow> bool" where
  "silent w w' = (requests w' = requests w)"

text \<open>No directory is lost.\<close>

definition keeps_dirs :: "world \<Rightarrow> world \<Rightarrow> bool" where
  "keeps_dirs w w' = (\<forall>q. is_dir (fs w) q \<longrightarrow> is_dir (fs w') q)"

text \<open>A normal return carries only values with the given property.\<close>

definition returns_only :: "('a \<Rightarrow> bool) \<Rightarrow> 'a io \<Rightarrow> bool" where
  "returns_only Q m = (\<forall>w x w'. m w = (Inr x, w') \<longrightarrow> Q x)"

text \<open>What a hub routine does once its dataset is loaded and its directory made.\<close>

definition hub_rest ::
    "env \<Rightarrow> dataset \<Rightarrow> path \<Rightarrow> (row \<Rightarrow> msg list) \<Rightarrow> string \<Rightarrow> bool io" where
  "hub_rest en dataset save_path preview banner =
     seq (print (''Saving to'', [P save_path]))
    (seq (save_to_disk en dataset save_path)
    (bind (first_row dataset) (\<lambda>sample.
     seq (print_all (preview sample))
    (seq (print (banner, []))
         (return True)))))"


text \<open>The requests the CoNaLa loop may make: the two addresses of every file that is
  not there.\<close>

definition fetched :: "filesystem \<Rightarrow> path \<Rightarrow> (string \<times> string) list \<Rightarrow> net_call set" where
  "fetched f d files =
     (\<Union>(filename, url) \<in> set files.
        if exists_path f (d @ [filename]) then {}
        else {HttpGet url, HttpGet (alt_base @ filename)})"

text \<open>A file system in which one of the three CoNaLa files is already there, with
  stale content.\<close>

definition fs_train :: filesystem where
  "fs_train =
     [([''data''], Dir), ([''data'', ''raw''], Dir), ([''data'', ''raw'', ''conala''], Dir),
      ([''data'', ''raw'', ''conala'', ''conala-train.json''], File ''stale'')]"

text \<open>A file system in which the name of the synthetic file is taken by a directory.\<close>

definition fs_synth_dir :: filesystem where
  "fs_synth_dir =
     [([''data''], Dir), ([''data'', ''raw''], Dir), ([''data'', ''raw'', ''conala''], Dir),
      ([''data'', ''raw'', ''conala'', ''conala-synthetic.json''], Dir)]"

section \<open>Running the primitives\<close>

named_theorems confined_intros

lemma return_run [simp]: "return x w = (Inr x, w)"
  by (simp add: return_def)

lemma raise_run [simp]: "raise e w = (Inl e, w)"
  by (simp add: raise_def)

lemma bind_run: "bind m k w = (case m w of (Inl e, w') \<Rightarrow> (Inl e, w') | (Inr x, w') \<Rightarrow> k x w')"
  by (simp add: bind_def)

lemma seq_run: "seq m n w = (case m w of (Inl e, w') \<Rightarrow> (Inl e, w') | (Inr x, w') \<Rightarrow> n w')"
  by (simp add: seq_def bind_def)

lemma try_except_run:
  "try_except m h w = (case m w of (Inl e, w') \<Rightarrow> h e w' | (Inr x, w') \<Rightarrow> (Inr x, w'))"
  by (simp add: try_except_def)

lemma print_run [simp]: "print m w = (Inr (), w\<lparr>out := out w @ [m]\<rparr>)"
  by (simp add: print_def)

lemma fs_get_run [simp]: "fs_get g w = (Inr (g (fs w)), w)"
  by (simp add: fs_get_def)

lemma exists_and_any_run:
  "exists_and_any p w =
     (if is_file (fs w) p then (Inl NotADirectoryError, w) else (Inr (available_dir (fs w) p), w))"
  by (auto simp: exists_and_any_def is_file_def available_dir_def is_dir_def
           split: option.splits node.splits)

lemma verification_loop_run:
  "\<forall>d \<in> set tbl. \<not> is_file (fs w) (snd d) \<Longrightarrow>
   verification_loop tbl ts av w =
     (Inr (ts + sum_list (map (tree_size (fs w) \<circ> snd) (filter (available_dir (fs w) \<circ> snd) tbl)),
           av + length (filter (available_dir (fs w) \<circ> snd) tbl)),
      w\<lparr>out := out w @ map (report_line (fs w)) tbl\<rparr>)"
proof (induction tbl arbitrary: ts av w)
  case Nil
  then show ?case by simp
next
  case (Cons d tbl)
  obtain name p where d: "d = (name, p)" by (cases d)
  from Cons.prems have nf: "\<not> is_file (fs w) p" and rest: "\<forall>d \<in> set tbl. \<not> is_file (fs w) (snd d)"
    by (simp_all add: d)
  show ?case
  proof (cases "available_dir (fs w) p")
    case True
    with nf rest show ?thesis
      using Cons.IH [of "w\<lparr>out := out w @ [(''Available'', [S name, N (tree_size (fs w) p)])]\<rparr>"]
      by (simp add: d bind_run seq_run exists_and_any_run report_line_def)
  next
    case False
    with nf rest show ?thesis
      using Cons.IH [of "w\<lparr>out := out w @ [(''Not available'', [S name])]\<rparr>"]
      by (simp add: d bind_run seq_run exists_and_any_run report_line_def)
  qed
qed

lemma verification_loop_raises:
  "verification_loop tbl ts av w = (Inr r, w') \<Longrightarrow> \<forall>d \<in> set tbl. \<not> is_file (fs w) (snd d)"
proof (induction tbl arbitrary: ts av w)
  case Nil
  then show ?case by simp
next
  case (Cons d tbl)
  obtain name p where d: "d = (name, p)" by (cases d)
  show ?case
  proof (cases "is_file (fs w) p")
    case True
    with Cons.prems show ?thesis by (simp add: d bind_run exists_and_any_run)
  next
    case False
    show ?thesis
    proof (cases "available_dir (fs w) p")
      case True
      with False Cons.prems
      have "verification_loop tbl (ts + tree_size (fs w) p) (av + 1)
              (w\<lparr>out := out w @ [(''Available'', [S name, N (tree_size (fs w) p)])]\<rparr>) = (Inr r, w')"
        by (simp add: d bind_run seq_run exists_and_any_run)
      from Cons.IH [OF this] False show ?thesis by (simp add: d)
    next
      case avf: False
      with False Cons.prems
      have "verification_loop tbl ts av (w\<lparr>out := out w @ [(''Not available'', [S name])]\<rparr>) = (Inr r, w')"
        by (simp add: d bind_run seq_run exists_and_any_run)
      from Cons.IH [OF this] False show ?thesis by (simp add: d)
    qed
  qed
qed


lemma lookup_update:
  "p \<noteq> [] \<Longrightarrow> lookup (AList.update p v f) q = (if q = p then Some v else lookup f q)"
  by (simp add: lookup_def update_conv')

lemma lookup_delete:
  "lookup (AList.delete p f) q = (if q = [] then Some Dir else if q = p then None else lookup f q)"
  by (simp add: lookup_def delete_conv')

lemma lookup_Nil [simp]: "lookup f [] = Some Dir"
  by (simp add: lookup_def)

lemma frame_refl [simp]: "frame F f f"
  by (simp add: frame_def)

lemma frame_trans: "frame F f g \<Longrightarrow> frame F g h \<Longrightarrow> frame F f h"
  by (simp add: frame_def)

lemma frame_mono: "frame F f g \<Longrightarrow> (\<And>q. F q \<Longrightarrow> G q) \<Longrightarrow> frame G f g"
  by (auto simp: frame_def)

lemma is_prefix_butlast: "is_prefix q (butlast p) \<Longrightarrow> is_prefix q p"
proof -
  assume a: "is_prefix q (butlast p)"
  then have "length (take (length q) (butlast p)) = length q"
    by (simp add: is_prefix_def)
  then have le: "length q \<le> length p - 1" by simp
  from a have "take (length q) (take (length p - 1) p) = q"
    by (simp add: is_prefix_def butlast_conv_take)
  with le show ?thesis by (simp add: is_prefix_def min_def)
qed

lemma mkdir_p_lookup:
  "mkdir_p f p = Inr f' \<Longrightarrow>
     lookup f' p = Some Dir \<and>
     (\<forall>q. lookup f' q = lookup f q \<or> (is_prefix q p \<and> lookup f q = None \<and> lookup f' q = Some Dir))"
proof (induction f p arbitrary: f' rule: mkdir_p.induct)
  case (1 f p)
  show ?case
  proof (cases "lookup f p")
    case (Some nd)
    with "1.prems" show ?thesis
      by (cases nd) (simp_all add: mkdir_p.simps [of f p])
  next
    case None
    then have pne: "p \<noteq> []" by (auto simp: lookup_def)
    show ?thesis
    proof (cases "lookup f (butlast p)")
      case (Some nd)
      with None "1.prems" pne show ?thesis
        by (cases nd) (auto simp: mkdir_p.simps [of f p] lookup_update is_prefix_def split: if_splits)
    next
      case None': None
      with None "1.prems" obtain g where g: "mkdir_p f (butlast p) = Inr g"
        and f': "f' = AList.update p Dir g"
        by (auto simp: mkdir_p.simps [of f p] split: sum.splits)
      from "1.IH" [OF None None' g]
      have ih: "\<forall>q. lookup g q = lookup f q \<or>
                 (is_prefix q (butlast p) \<and> lookup f q = None \<and> lookup g q = Some Dir)"
        by simp
      show ?thesis
      proof (intro conjI allI)
        show "lookup f' p = Some Dir" using pne by (simp add: f' lookup_update)
      next
        fix q
        show "lookup f' q = lookup f q \<or> (is_prefix q p \<and> lookup f q = None \<and> lookup f' q = Some Dir)"
        proof (cases "q = p")
          case True
          with None pne show ?thesis by (simp add: f' lookup_update is_prefix_def)
        next
          case False
          with ih [rule_format, of q] pne show ?thesis
            by (auto simp: f' lookup_update dest: is_prefix_butlast)
        qed
      qed
    qed
  qed
qed


lemma is_prefix_append: "is_prefix q (a @ b) \<Longrightarrow> is_prefix q a \<or> is_prefix a q"
proof (cases "length q \<le> length a")
  case True
  assume "is_prefix q (a @ b)"
  with True show ?thesis by (simp add: is_prefix_def)
next
  case False
  assume "is_prefix q (a @ b)"
  then have "take (length a) (take (length q) (a @ b)) = take (length a) q"
    by (simp add: is_prefix_def)
  with False show ?thesis by (simp add: is_prefix_def min_def)
qed

lemma is_prefix_self [simp]: "is_prefix p p"
  by (simp add: is_prefix_def)

lemma is_prefix_app [simp]: "is_prefix p (p @ r)"
  by (simp add: is_prefix_def)

lemma write_file_lookup:
  "write_file f p c = Inr f' \<Longrightarrow> lookup f' q = (if q = p then Some (File c) else lookup f q)"
  by (auto simp: write_file_def lookup_update split: if_splits option.splits node.splits)

lemma write_file_ok:
  "p \<noteq> [] \<Longrightarrow> is_dir f (butlast p) \<Longrightarrow> \<not> is_dir f p \<Longrightarrow>
   write_file f p c = Inr (AList.update p (File c) f)"
  by (simp add: write_file_def is_dir_def)

lemma unlink_lookup:
  "unlink f p = Inr f' \<Longrightarrow> lookup f' q = (if q = p then None else lookup f q)"
  by (auto simp: unlink_def lookup_delete split: option.splits node.splits)

lemma mkdir_p_frame: "mkdir_p f p = Inr f' \<Longrightarrow> frame (\<lambda>q. is_prefix q p) f f'"
  unfolding frame_def
proof (intro allI impI)
  fix q
  assume "mkdir_p f p = Inr f'" and "\<not> is_prefix q p"
  then show "lookup f' q = lookup f q"
    using mkdir_p_lookup [of f p f'] by blast
qed

lemma mkdir_p_is_dir: "mkdir_p f p = Inr f' \<Longrightarrow> is_dir f' p"
  using mkdir_p_lookup [of f p f'] by (simp add: is_dir_def)

lemma mkdir_p_cases:
  "mkdir_p f p = Inr f' \<Longrightarrow>
     lookup f' q = lookup f q \<or> (is_prefix q p \<and> lookup f q = None \<and> lookup f' q = Some Dir)"
  using mkdir_p_lookup [of f p f'] by blast

lemma mkdir_p_keeps: "mkdir_p f p = Inr f' \<Longrightarrow> lookup f q = Some x \<Longrightarrow> lookup f' q = Some x"
  using mkdir_p_cases [of f p f' q] by auto

lemma mkdir_p_no_new_file:
  assumes "mkdir_p f p = Inr f'"
  shows "is_file f' q = is_file f q"
proof -
  from assms consider "lookup f' q = lookup f q" | "lookup f q = None \<and> lookup f' q = Some Dir"
    using mkdir_p_cases [of f p f' q] by blast
  then show ?thesis by cases (simp_all add: is_file_def)
qed

lemma mkdir_p_existing: "is_dir f p \<Longrightarrow> mkdir_p f p = Inr f"
  by (simp add: mkdir_p.simps [of f p] is_dir_def)

lemma mkdir_p_file: "is_file f p \<Longrightarrow> mkdir_p f p = Inl FileExistsError"
  by (auto simp: mkdir_p.simps [of f p] is_file_def split: option.splits node.splits)

lemma in_paths_iff: "q \<in> set (paths f) \<longleftrightarrow> map_of f q \<noteq> None"
proof -
  have "map_of f q = None \<longleftrightarrow> q \<notin> fst ` set f" by (rule map_of_eq_None_iff)
  then show ?thesis by (simp add: paths_def)
qed

lemma children_nonempty_iff:
  "children f p \<noteq> [] \<longleftrightarrow> (\<exists>q. q \<noteq> [] \<and> butlast q = p \<and> lookup f q \<noteq> None)"
proof -
  have eq: "\<And>q. q \<noteq> [] \<Longrightarrow> (q \<in> set (paths f)) = (lookup f q \<noteq> None)"
    by (simp add: in_paths_iff lookup_def)
  have "children f p \<noteq> [] \<longleftrightarrow> (\<exists>q \<in> set (paths f). q \<noteq> [] \<and> butlast q = p)"
    unfolding children_def filter_empty_conv by blast
  also have "\<dots> \<longleftrightarrow> (\<exists>q. q \<noteq> [] \<and> butlast q = p \<and> lookup f q \<noteq> None)"
  proof
    assume "\<exists>q \<in> set (paths f). q \<noteq> [] \<and> butlast q = p"
    then obtain q where "q \<in> set (paths f)" "q \<noteq> []" "butlast q = p" by blast
    with eq [of q] show "\<exists>q. q \<noteq> [] \<and> butlast q = p \<and> lookup f q \<noteq> None" by blast
  next
    assume "\<exists>q. q \<noteq> [] \<and> butlast q = p \<and> lookup f q \<noteq> None"
    then obtain q where "q \<noteq> []" "butlast q = p" "lookup f q \<noteq> None" by blast
    with eq [of q] show "\<exists>q \<in> set (paths f). q \<noteq> [] \<and> butlast q = p" by blast
  qed
  finally show ?thesis .
qed

lemma available_dir_iff:
  "available_dir f p \<longleftrightarrow>
     lookup f p = Some Dir \<and> (\<exists>q. q \<noteq> [] \<and> butlast q = p \<and> lookup f q \<noteq> None)"
  by (simp add: available_dir_def is_dir_def children_nonempty_iff)

lemma available_dirI:
  "is_dir f p \<Longrightarrow> lookup f (p @ [n]) \<noteq> None \<Longrightarrow> available_dir f p"
  unfolding available_dir_iff is_dir_def by (intro conjI exI [of _ "p @ [n]"]) simp_all



subsection \<open>Confinement\<close>

lemma confinedI: "(\<And>w. frame F (fs w) (fs (snd (m w)))) \<Longrightarrow> confined F m"
  by (simp add: confined_def)

lemma confinedD: "confined F m \<Longrightarrow> m w = (r, w') \<Longrightarrow> frame F (fs w) (fs w')"
  by (auto simp: confined_def dest: spec [of _ w])

lemma confined_mono: "confined F m \<Longrightarrow> (\<And>q. F q \<Longrightarrow> G q) \<Longrightarrow> confined G m"
  by (auto simp: confined_def intro: frame_mono)

lemma confined_return [confined_intros]: "confined F (return x)"
  by (simp add: confined_def)

lemma confined_raise [confined_intros]: "confined F (raise e)"
  by (simp add: confined_def)

lemma confined_print [confined_intros]: "confined F (print m)"
  by (simp add: confined_def)

lemma confined_fs_get [confined_intros]: "confined F (fs_get g)"
  by (simp add: confined_def)

lemma confined_bind [confined_intros]:
  assumes "confined F m" and "\<And>x. confined F (k x)"
  shows "confined F (bind m k)"
proof (rule confinedI)
  fix w
  obtain r w1 where m: "m w = (r, w1)" by (cases "m w")
  from assms(1) m have f1: "frame F (fs w) (fs w1)" by (rule confinedD)
  show "frame F (fs w) (fs (snd (bind m k w)))"
  proof (cases r)
    case (Inl e)
    with m f1 show ?thesis by (simp add: bind_run)
  next
    case (Inr x)
    obtain r2 w2 where k: "k x w1 = (r2, w2)" by (cases "k x w1")
    from assms(2) k have "frame F (fs w1) (fs w2)" by (rule confinedD)
    with f1 have "frame F (fs w) (fs w2)" by (rule frame_trans)
    with m Inr k show ?thesis by (simp add: bind_run)
  qed
qed

lemma confined_seq [confined_intros]:
  "confined F m \<Longrightarrow> confined F n \<Longrightarrow> confined F (seq m n)"
  by (simp add: seq_def confined_bind)

lemma confined_try_except [confined_intros]:
  assumes "confined F m" and "\<And>e. confined F (h e)"
  shows "confined F (try_except m h)"
proof (rule confinedI)
  fix w
  obtain r w1 where m: "m w = (r, w1)" by (cases "m w")
  from assms(1) m have f1: "frame F (fs w) (fs w1)" by (rule confinedD)
  show "frame F (fs w) (fs (snd (try_except m h w)))"
  proof (cases r)
    case (Inr x)
    with m f1 show ?thesis by (simp add: try_except_run)
  next
    case (Inl e)
    obtain r2 w2 where k: "h e w1 = (r2, w2)" by (cases "h e w1")
    from assms(2) k have "frame F (fs w1) (fs w2)" by (rule confinedD)
    with f1 have "frame F (fs w) (fs w2)" by (rule frame_trans)
    with m Inl k show ?thesis by (simp add: try_except_run)
  qed
qed

lemma confined_if [confined_intros]:
  "confined F a \<Longrightarrow> confined F b \<Longrightarrow> confined F (if c then a else b)"
  by simp

lemma fs_op_run:
  "fs_op g w = (case g (fs w) of Inl e \<Rightarrow> (Inl e, w) | Inr f' \<Rightarrow> (Inr (), w\<lparr>fs := f'\<rparr>))"
  by (simp add: fs_op_def)

lemma confined_fs_op:
  "(\<And>f f'. g f = Inr f' \<Longrightarrow> frame F f f') \<Longrightarrow> confined F (fs_op g)"
  by (auto simp: confined_def fs_op_run split: sum.splits)

lemma confined_mkdir [confined_intros]:
  "(\<And>q. is_prefix q p \<Longrightarrow> F q) \<Longrightarrow> confined F (mkdir p)"
  unfolding mkdir_def
  by (rule confined_fs_op) (blast intro: frame_mono dest: mkdir_p_frame)

lemma confined_write_text [confined_intros]: "F p \<Longrightarrow> confined F (write_text p c)"
  unfolding write_text_def
  by (rule confined_fs_op) (auto simp: frame_def write_file_lookup)

lemma confined_unlink_file [confined_intros]: "F p \<Longrightarrow> confined F (unlink_file p)"
  unfolding unlink_file_def
  by (rule confined_fs_op) (auto simp: frame_def unlink_lookup)

lemma confined_exists_and_any [confined_intros]: "confined F (exists_and_any p)"
  by (simp add: confined_def exists_and_any_run)

lemma requests_get_run:
  "requests_get en url w =
     (case http_get en (length (requests w)) url of
        RequestFailed \<Rightarrow> (Inl RequestException, w\<lparr>requests := requests w @ [HttpGet url]\<rparr>)
      | Streamed chunks broken \<Rightarrow>
          (Inr (chunks, broken), w\<lparr>requests := requests w @ [HttpGet url]\<rparr>))"
  by (simp add: requests_get_def Let_def)

lemma confined_requests_get [confined_intros]: "confined F (requests_get en url)"
  by (simp add: confined_def requests_get_run split: http_response.splits)




lemma confined_download [confined_intros]:
  "F dest \<Longrightarrow> confined F (download_file_with_progress en url dest)"
  unfolding download_file_with_progress_def
  by (intro confined_intros) (simp_all add: split_def confined_intros)

lemma print_all_run: "print_all ms w = (Inr (), w\<lparr>out := out w @ ms\<rparr>)"
  by (induction ms arbitrary: w) (simp_all add: seq_run)

lemma summary_run:
  "summary rs w =
     (Inr (), w\<lparr>out := out w @ map (\<lambda>(d, ok). (''Status'', [B ok, S d])) rs
                     @ [(''Successfully downloaded'', [N (successful_of rs), N (length rs)])]
                     @ map (\<lambda>(d, ok). (''Just downloaded'', [S d])) (filter snd rs)
                     @ [(''TOTAL DATASETS'', [N (2 + successful_of rs)])]
                     @ judgement_lines rs\<rparr>)"
  by (simp add: summary_def judgement_lines_def seq_run print_all_run Let_def)


lemma final_verification_run:
  assumes "\<forall>d \<in> set datasets_tbl. \<not> is_file (fs w) (snd d)"
  shows "final_verification w =
     (Inr (3 \<le> available_count (fs w)),
      w\<lparr>out := out w @ map (report_line (fs w)) datasets_tbl
                 @ [(''Total Available'', [N (available_count (fs w)), N 6]),
                    (''Total Size'',
                     [N (sum_list (map (tree_size (fs w) \<circ> snd)
                                       (filter (available_dir (fs w) \<circ> snd) datasets_tbl)))])]
                 @ (if 3 \<le> available_count (fs w)
                    then [(''SUFFICIENT DATA FOR PROJECT!'', [])] else [])\<rparr>)"
proof -
  have len: "length datasets_tbl = 6" by (simp add: datasets_tbl_def)
  have cnt: "length (filter (available_dir (fs w) \<circ> snd) datasets_tbl) = available_count (fs w)"
    by (simp add: available_count_def comp_def)
  show ?thesis
    unfolding final_verification_def
    by (simp add: bind_run seq_run verification_loop_run [OF assms] cnt len)
qed

lemma final_verification_returns:
  assumes "final_verification w = (Inr ok, w')"
  shows "\<forall>d \<in> set datasets_tbl. \<not> is_file (fs w) (snd d)"
proof -
  obtain r w1 where v: "verification_loop datasets_tbl 0 0 w = (r, w1)"
    by (cases "verification_loop datasets_tbl 0 0 w")
  with assms obtain x where "r = Inr x"
    by (cases r) (simp_all add: final_verification_def bind_run)
  with v show ?thesis by (auto dest: verification_loop_raises)
qed


text \<open>
  Claim C10. Once the prompt is reached, a trimmed input other than 1, 2, 3 or 4 makes
  the selector script print the error line and end with status 1; the prompt is
  printed once, the file system is unchanged and no request is made.
\<close>

theorem invalid_choice_exits:
  assumes "datasets_version en = Some v"
    and "strip line \<notin> {''1'', ''2'', ''3'', ''4''}"
  shows "selector_script en line w =
     (Inr (1, []),
      w\<lparr>out := out w @ [(''datasets package version'', [S v]),
                         (''What to download? (1-4): '', []),
                         (''Invalid choice'', [])]\<rparr>)"
  using assms by (simp add: selector_script_def dispatch_def seq_run bind_run Let_def)

theorem invalid_choice_exits_witness:
  "datasets_version env_offline = Some ''2.14.0'' \<and>
   strip '' 9 '' \<notin> {''1'', ''2'', ''3'', ''4''} \<and>
   selector_script env_offline '' 9 '' (start []) =
     (Inr (1, []),
      \<lparr>fs = [], out = [(''datasets package version'', [S ''2.14.0'']),
                        (''What to download? (1-4): '', []),
                        (''Invalid choice'', [])], requests = []\<rparr>)"
  using invalid_choice_exits [of env_offline "''2.14.0''" "'' 9 ''" "start []"]
  by (simp add: env_offline_def strip_def isspace_def start_def)

lemma mkdir_run:
  "mkdir p w = (case mkdir_p (fs w) p of Inl e \<Rightarrow> (Inl e, w) | Inr f' \<Rightarrow> (Inr (), w\<lparr>fs := f'\<rparr>))"
  by (simp add: mkdir_def fs_op_run)

lemma write_text_run:
  "write_text p c w =
     (case write_file (fs w) p c of Inl e \<Rightarrow> (Inl e, w) | Inr f' \<Rightarrow> (Inr (), w\<lparr>fs := f'\<rparr>))"
  by (simp add: write_text_def fs_op_run)

lemma hub_load_run:
  "hub_load en name w =
     (case load_dataset en (length (requests w)) name of
        None \<Rightarrow> (Inl HubError, w\<lparr>requests := requests w @ [HubLoad name]\<rparr>)
      | Some d \<Rightarrow> (Inr d, w\<lparr>requests := requests w @ [HubLoad name]\<rparr>))"
  by (simp add: hub_load_def Let_def)

lemma count_three: "available_count fs_three = 3"
  by (simp add: available_count_def datasets_tbl_def BASE_DIR_def available_dir_def is_dir_def
                lookup_def children_def paths_def fs_three_def)

lemma nofile_three: "\<forall>d \<in> set datasets_tbl. \<not> is_file fs_three (snd d)"
  by (simp add: datasets_tbl_def BASE_DIR_def is_file_def lookup_def fs_three_def)



lemma sum_list_filter_if:
  "sum_list (map (g \<circ> snd) (filter (Q \<circ> snd) xs)) =
   sum_list (map (\<lambda>d. if Q (snd d) then g (snd d) else (0::nat)) xs)"
  by (induction xs) simp_all

text \<open>
  Claim C2. When the reporter completes, every directory of its table gets one line:
  the available line if and only if the directory exists and has at least one entry,
  the other line otherwise, so an existing empty directory is unavailable; the count
  is the number of such directories, and the total size sums the sizes of these
  directories only.
\<close>

theorem availability_rule:
  assumes "final_verification w = (Inr ok, w')"
  shows "\<exists>rest. out w' =
     out w
     @ map (\<lambda>(name, p). if is_dir (fs w) p \<and> children (fs w) p \<noteq> []
                          then (''Available'', [S name, N (tree_size (fs w) p)])
                          else (''Not available'', [S name])) datasets_tbl
     @ [(''Total Available'',
         [N (length (filter (\<lambda>(name, p). is_dir (fs w) p \<and> children (fs w) p \<noteq> []) datasets_tbl)),
          N 6]),
        (''Total Size'',
         [N (sum_list (map (\<lambda>(name, p). if is_dir (fs w) p \<and> children (fs w) p \<noteq> []
                                          then tree_size (fs w) p else 0) datasets_tbl))])]
     @ rest"
proof -
  from assms have nf: "\<forall>d \<in> set datasets_tbl. \<not> is_file (fs w) (snd d)"
    by (rule final_verification_returns)
  have lines: "map (report_line (fs w)) datasets_tbl =
      map (\<lambda>(name, p). if is_dir (fs w) p \<and> children (fs w) p \<noteq> []
                          then (''Available'', [S name, N (tree_size (fs w) p)])
                          else (''Not available'', [S name])) datasets_tbl"
    by (rule map_cong) (auto simp: report_line_def available_dir_def)
  have cnt: "available_count (fs w) =
      length (filter (\<lambda>(name, p). is_dir (fs w) p \<and> children (fs w) p \<noteq> []) datasets_tbl)"
    unfolding available_count_def
    by (rule arg_cong [where f = length], rule filter_cong) (auto simp: available_dir_def)
  have sz: "sum_list (map (tree_size (fs w) \<circ> snd) (filter (available_dir (fs w) \<circ> snd) datasets_tbl)) =
      sum_list (map (\<lambda>(name, p). if is_dir (fs w) p \<and> children (fs w) p \<noteq> []
                                          then tree_size (fs w) p else 0) datasets_tbl)"
    unfolding sum_list_filter_if
    by (rule arg_cong [where f = sum_list], rule map_cong) (auto simp: available_dir_def)
  define X where "X = out w @ map (report_line (fs w)) datasets_tbl
                 @ [(''Total Available'', [N (available_count (fs w)), N 6]),
                    (''Total Size'',
                     [N (sum_list (map (tree_size (fs w) \<circ> snd)
                                       (filter (available_dir (fs w) \<circ> snd) datasets_tbl)))])]
                 @ (if 3 \<le> available_count (fs w)
                    then [(''SUFFICIENT DATA FOR PROJECT!'', [])] else [])"
  have "final_verification w = (Inr (3 \<le> available_count (fs w)), w\<lparr>out := X\<rparr>)"
    unfolding X_def by (rule final_verification_run [OF nf])
  with assms have "w' = w\<lparr>out := X\<rparr>" by simp
  then have "out w' = X" by simp
  then have "out w' = out w @ map (report_line (fs w)) datasets_tbl
                 @ [(''Total Available'', [N (available_count (fs w)), N 6]),
                    (''Total Size'',
                     [N (sum_list (map (tree_size (fs w) \<circ> snd)
                                       (filter (available_dir (fs w) \<circ> snd) datasets_tbl)))])]
                 @ (if 3 \<le> available_count (fs w)
                    then [(''SUFFICIENT DATA FOR PROJECT!'', [])] else [])"
    by (simp only: X_def)
  then show ?thesis unfolding lines cnt sz by blast
qed

theorem availability_rule_witness:
  "final_verification (start fs_three) = (Inr True, snd (final_verification (start fs_three))) \<and>
   is_dir fs_three [''data'', ''raw'', ''conala''] \<and>
   children fs_three [''data'', ''raw'', ''conala''] = [] \<and>
   (\<exists>rest. out (snd (final_verification (start fs_three))) =
     out (start fs_three)
     @ map (\<lambda>(name, p). if is_dir (fs (start fs_three)) p \<and> children (fs (start fs_three)) p \<noteq> []
                          then (''Available'', [S name, N (tree_size (fs (start fs_three)) p)])
                          else (''Not available'', [S name])) datasets_tbl
     @ [(''Total Available'',
         [N (length (filter (\<lambda>(name, p). is_dir (fs (start fs_three)) p \<and>
                                             children (fs (start fs_three)) p \<noteq> []) datasets_tbl)),
          N 6]),
        (''Total Size'',
         [N (sum_list (map (\<lambda>(name, p). if is_dir (fs (start fs_three)) p \<and>
                                              children (fs (start fs_three)) p \<noteq> []
                                          then tree_size (fs (start fs_three)) p else 0) datasets_tbl))])]
     @ rest)"
proof -
  have f: "fs (start fs_three) = fs_three" by (simp add: start_def)
  have "fst (final_verification (start fs_three)) = Inr True"
    using final_verification_run [of "start fs_three"] nofile_three
    by (simp add: f count_three)
  then have a1: "final_verification (start fs_three) =
      (Inr True, snd (final_verification (start fs_three)))"
    by (simp add: prod_eq_iff)
  have d: "is_dir fs_three [''data'', ''raw'', ''conala'']"
    by (simp add: is_dir_def lookup_def fs_three_def)
  have c: "children fs_three [''data'', ''raw'', ''conala''] = []"
    by (simp add: children_def paths_def fs_three_def)
  from a1 d c availability_rule [OF a1] show ?thesis by blast
qed

lemma stays_inD: "stays_in R m \<Longrightarrow> m w = (r, w') \<Longrightarrow> R w w'"
  by (auto simp: stays_in_def dest: spec [of _ w])

lemma stays_in_bind:
  assumes "preorder_rel R" and "stays_in R m" and "\<And>x. stays_in R (k x)"
  shows "stays_in R (bind m k)"
  unfolding stays_in_def
proof
  fix w
  obtain r w1 where m: "m w = (r, w1)" by (cases "m w")
  from assms(2) m have r1: "R w w1" by (rule stays_inD)
  show "R w (snd (bind m k w))"
  proof (cases r)
    case (Inl e)
    with m r1 show ?thesis by (simp add: bind_run)
  next
    case (Inr x)
    obtain r2 w2 where k: "k x w1 = (r2, w2)" by (cases "k x w1")
    from assms(3) k have "R w1 w2" by (rule stays_inD)
    with r1 assms(1) have "R w w2" unfolding preorder_rel_def by blast
    with m Inr k show ?thesis by (simp add: bind_run)
  qed
qed

lemma stays_in_seq:
  "preorder_rel R \<Longrightarrow> stays_in R m \<Longrightarrow> stays_in R n \<Longrightarrow> stays_in R (seq m n)"
  by (simp add: seq_def stays_in_bind)

lemma stays_in_try_except:
  assumes "preorder_rel R" and "stays_in R m" and "\<And>e. stays_in R (h e)"
  shows "stays_in R (try_except m h)"
  unfolding stays_in_def
proof
  fix w
  obtain r w1 where m: "m w = (r, w1)" by (cases "m w")
  from assms(2) m have r1: "R w w1" by (rule stays_inD)
  show "R w (snd (try_except m h w))"
  proof (cases r)
    case (Inr x)
    with m r1 show ?thesis by (simp add: try_except_run)
  next
    case (Inl e)
    obtain r2 w2 where k: "h e w1 = (r2, w2)" by (cases "h e w1")
    from assms(3) k have "R w1 w2" by (rule stays_inD)
    with r1 assms(1) have "R w w2" unfolding preorder_rel_def by blast
    with m Inl k show ?thesis by (simp add: try_except_run)
  qed
qed

lemma stays_in_if: "stays_in R a \<Longrightarrow> stays_in R b \<Longrightarrow> stays_in R (if c then a else b)"
  by simp

lemma preorder_silent: "preorder_rel silent"
  by (simp add: preorder_rel_def silent_def)

lemma preorder_keeps_dirs: "preorder_rel keeps_dirs"
  by (simp add: preorder_rel_def keeps_dirs_def)

named_theorems silent_intros

named_theorems dirs_intros

lemmas silent_combinators [silent_intros] =
  stays_in_bind [OF preorder_silent] stays_in_seq [OF preorder_silent]
  stays_in_try_except [OF preorder_silent] stays_in_if [of silent]

lemmas dirs_combinators [dirs_intros] =
  stays_in_bind [OF preorder_keeps_dirs] stays_in_seq [OF preorder_keeps_dirs]
  stays_in_try_except [OF preorder_keeps_dirs] stays_in_if [of keeps_dirs]

lemma silent_return [silent_intros]: "stays_in silent (return x)"
  by (simp add: stays_in_def silent_def)

lemma silent_raise [silent_intros]: "stays_in silent (raise e)"
  by (simp add: stays_in_def silent_def)

lemma silent_print [silent_intros]: "stays_in silent (print m)"
  by (simp add: stays_in_def silent_def)

lemma silent_fs_get [silent_intros]: "stays_in silent (fs_get g)"
  by (simp add: stays_in_def silent_def)

lemma silent_fs_op: "stays_in silent (fs_op g)"
  by (simp add: stays_in_def silent_def fs_op_run split: sum.splits)

lemma silent_mkdir [silent_intros]: "stays_in silent (mkdir p)"
  by (simp add: mkdir_def silent_fs_op)

lemma silent_write_text [silent_intros]: "stays_in silent (write_text p c)"
  by (simp add: write_text_def silent_fs_op)

lemma silent_unlink_file [silent_intros]: "stays_in silent (unlink_file p)"
  by (simp add: unlink_file_def silent_fs_op)

lemma silent_exists_and_any [silent_intros]: "stays_in silent (exists_and_any p)"
  by (simp add: stays_in_def silent_def exists_and_any_run)

lemma silent_print_all [silent_intros]: "stays_in silent (print_all ms)"
  by (simp add: stays_in_def silent_def print_all_run)

lemma silent_write_all [silent_intros]: "stays_in silent (write_all d files)"
  by (induction d files rule: write_all.induct) (simp_all add: silent_intros del: return_run)

lemma silent_first_row [silent_intros]: "stays_in silent (first_row ds)"
  by (cases ds) (simp_all add: first_row_def silent_intros del: return_run raise_run)

lemma dirs_return [dirs_intros]: "stays_in keeps_dirs (return x)"
  by (simp add: stays_in_def keeps_dirs_def)

lemma dirs_raise [dirs_intros]: "stays_in keeps_dirs (raise e)"
  by (simp add: stays_in_def keeps_dirs_def)

lemma dirs_print [dirs_intros]: "stays_in keeps_dirs (print m)"
  by (simp add: stays_in_def keeps_dirs_def)

lemma dirs_print_all [dirs_intros]: "stays_in keeps_dirs (print_all ms)"
  by (simp add: stays_in_def keeps_dirs_def print_all_run)

lemma dirs_fs_get [dirs_intros]: "stays_in keeps_dirs (fs_get g)"
  by (simp add: stays_in_def keeps_dirs_def)

lemma dirs_fs_op:
  "(\<And>f f' q. g f = Inr f' \<Longrightarrow> is_dir f q \<Longrightarrow> is_dir f' q) \<Longrightarrow> stays_in keeps_dirs (fs_op g)"
  by (auto simp: stays_in_def keeps_dirs_def fs_op_run split: sum.splits)

lemma write_file_keeps_dir: "write_file f p c = Inr f' \<Longrightarrow> is_dir f q \<Longrightarrow> is_dir f' q"
  by (auto simp: write_file_def is_dir_def lookup_update split: if_splits option.splits node.splits)

lemma dirs_mkdir [dirs_intros]: "stays_in keeps_dirs (mkdir p)"
  unfolding mkdir_def by (rule dirs_fs_op) (simp add: is_dir_def mkdir_p_keeps)

lemma dirs_write_text [dirs_intros]: "stays_in keeps_dirs (write_text p c)"
  unfolding write_text_def by (rule dirs_fs_op) (rule write_file_keeps_dir)

lemma dirs_write_all [dirs_intros]: "stays_in keeps_dirs (write_all d files)"
  by (induction d files rule: write_all.induct) (simp_all add: dirs_intros del: return_run)

lemma dirs_first_row [dirs_intros]: "stays_in keeps_dirs (first_row ds)"
  by (cases ds) (simp_all add: first_row_def dirs_intros del: return_run raise_run)

lemma returns_only_return: "Q x \<Longrightarrow> returns_only Q (return x)"
  by (simp add: returns_only_def)

lemma returns_only_bind: "(\<And>x. returns_only Q (k x)) \<Longrightarrow> returns_only Q (bind m k)"
  by (auto simp: returns_only_def bind_run split: prod.splits sum.splits)

lemma returns_only_seq: "returns_only Q n \<Longrightarrow> returns_only Q (seq m n)"
  by (simp add: seq_def returns_only_bind)

text \<open>The shape of every handler in the two scripts: print the exception, return
  False; the protected body returns True when it completes.\<close>

lemma try_except_flag:
  assumes "returns_only (\<lambda>x. x) m"
  shows "\<exists>ok w'. try_except m (\<lambda>e. seq (print (t, [E e])) (return False)) w = (Inr ok, w') \<and>
           (\<not> ok \<longrightarrow> (\<exists>e. last (out w') = (t, [E e])))"
proof -
  obtain r w1 where m: "m w = (r, w1)" by (cases "m w")
  show ?thesis
  proof (cases r)
    case (Inl e)
    with m show ?thesis by (auto simp: try_except_run seq_run)
  next
    case (Inr x)
    with m assms have x by (auto simp: returns_only_def)
    with m Inr show ?thesis by (auto simp: try_except_run)
  qed
qed

lemma hub_routine_run:
  "hub_routine en name p preview banner w =
     (case load_dataset en (length (requests w)) name of
        None \<Rightarrow>
          (Inr False, w\<lparr>requests := requests w @ [HubLoad name],
                           out := out w @ [(''Failed'', [E HubError])]\<rparr>)
      | Some ds \<Rightarrow>
          (case mkdir_p (fs w) p of
             Inl e \<Rightarrow>
               (Inr False, w\<lparr>requests := requests w @ [HubLoad name],
                               out := out w @ [(''Loaded examples'', [N (length ds)]),
                                               (''Failed'', [E e])]\<rparr>)
           | Inr f1 \<Rightarrow>
               try_except (hub_rest en ds p preview banner)
                 (\<lambda>e. seq (print (''Failed'', [E e])) (return False))
                 (w\<lparr>requests := requests w @ [HubLoad name],
                    out := out w @ [(''Loaded examples'', [N (length ds)])],
                    fs := f1\<rparr>)))"
  by (simp add: hub_routine_def hub_rest_def try_except_run bind_run seq_run hub_load_run mkdir_run
           split: option.splits sum.splits prod.splits)

lemma hub_rest_silent: "stays_in silent (hub_rest en ds p preview banner)"
  unfolding hub_rest_def save_to_disk_def by (intro silent_intros)

lemma hub_rest_dirs: "stays_in keeps_dirs (hub_rest en ds p preview banner)"
  unfolding hub_rest_def save_to_disk_def by (intro dirs_intros)

lemma hub_rest_true: "returns_only (\<lambda>x. x) (hub_rest en ds p preview banner)"
  unfolding hub_rest_def
  by (intro returns_only_seq returns_only_bind returns_only_return) simp

lemma hub_handler_silent: "stays_in silent (\<lambda>w. seq (print (t, [E e])) (return False) w)"
  by (intro silent_intros)

lemma hub_guarded_silent:
  "stays_in silent (try_except (hub_rest en ds p preview banner)
                      (\<lambda>e. seq (print (''Failed'', [E e])) (return False)))"
  by (intro silent_intros hub_rest_silent)

lemma hub_guarded_dirs:
  "stays_in keeps_dirs (try_except (hub_rest en ds p preview banner)
                      (\<lambda>e. seq (print (''Failed'', [E e])) (return False)))"
  by (intro dirs_intros hub_rest_dirs)

text \<open>The facts about a hub routine that the claims use.\<close>

lemma hub_routine_facts:
  "\<exists>ok w'. hub_routine en name p preview banner w = (Inr ok, w') \<and>
     (\<not> ok \<longrightarrow> (\<exists>e. last (out w') = (''Failed'', [E e]))) \<and>
     requests w' = requests w @ [HubLoad name] \<and>
     (ok \<longrightarrow> is_dir (fs w') p) \<and>
     (load_dataset en (length (requests w)) name = None \<longrightarrow> \<not> ok \<and> fs w' = fs w) \<and>
     (load_dataset en (length (requests w)) name \<noteq> None \<longrightarrow>
        (\<forall>f1. mkdir_p (fs w) p = Inr f1 \<longrightarrow> is_dir (fs w') p))"
proof (cases "load_dataset en (length (requests w)) name")
  case None
  then show ?thesis by (auto simp: hub_routine_run)
next
  case (Some ds)
  show ?thesis
  proof (cases "mkdir_p (fs w) p")
    case (Inl e)
    with Some show ?thesis by (auto simp: hub_routine_run)
  next
    case (Inr f1)
    let ?w1 = "w\<lparr>requests := requests w @ [HubLoad name],
                   out := out w @ [(''Loaded examples'', [N (length ds)])], fs := f1\<rparr>"
    let ?g = "try_except (hub_rest en ds p preview banner)
                (\<lambda>e. seq (print (''Failed'', [E e])) (return False))"
    from try_except_flag [OF hub_rest_true, where t = "''Failed''" and w = ?w1]
    obtain ok w' where g: "?g ?w1 = (Inr ok, w')"
      and l: "\<not> ok \<longrightarrow> (\<exists>e. last (out w') = (''Failed'', [E e]))"
      by blast
    from hub_guarded_silent g have "silent ?w1 w'" by (rule stays_inD)
    then have rq: "requests w' = requests w @ [HubLoad name]" by (simp add: silent_def)
    from hub_guarded_dirs g have kd: "keeps_dirs ?w1 w'" by (rule stays_inD)
    from Inr have "is_dir (fs ?w1) p" by (simp add: mkdir_p_is_dir)
    with kd have d: "is_dir (fs w') p" by (simp add: keeps_dirs_def)
    from Some Inr g have "hub_routine en name p preview banner w = (Inr ok, w')"
      by (simp add: hub_routine_run)
    with l rq d Some show ?thesis by simp
  qed
qed

lemma sel3_offline:
  "selector_script env_offline ''3'' (start []) =
     (Inr (0, [(''MBPP'', False)]),
      \<lparr>fs = [],
       out = [(''datasets package version'', [S ''2.14.0'']),
              (''What to download? (1-4): '', []),
              (''Failed'', [E HubError]),
              (''Status'', [B False, S ''MBPP'']),
              (''Successfully downloaded'', [N 0, N 1]),
              (''TOTAL DATASETS'', [N 2]),
              (''Try downloading more options'', [N 2])],
       requests = [HubLoad ''mbpp'']\<rparr>)"
  by (simp add: selector_script_def dispatch_def download_mbpp_def hub_routine_def summary_def
                successful_of_def env_offline_def strip_def isspace_def start_def
                seq_run bind_run try_except_run hub_load_run Let_def)

lemma download_mbpp_facts:
  "\<exists>ok w'. download_mbpp en w = (Inr ok, w') \<and>
     (\<not> ok \<longrightarrow> (\<exists>e. last (out w') = (''Failed'', [E e]))) \<and>
     requests w' = requests w @ [HubLoad ''mbpp''] \<and>
     (ok \<longrightarrow> is_dir (fs w') [''data'', ''raw'', ''mbpp'']) \<and>
     (load_dataset en (length (requests w)) ''mbpp'' = None \<longrightarrow> \<not> ok \<and> fs w' = fs w) \<and>
     (load_dataset en (length (requests w)) ''mbpp'' \<noteq> None \<longrightarrow>
        (\<forall>f1. mkdir_p (fs w) [''data'', ''raw'', ''mbpp''] = Inr f1 \<longrightarrow>
              is_dir (fs w') [''data'', ''raw'', ''mbpp'']))"
  unfolding download_mbpp_def by (rule hub_routine_facts)

text \<open>
  Claim C9, as the code has it. With the trimmed input 3 the results collection has
  exactly one entry, keyed MBPP. The directory data/raw/mbpp is made after the hub
  load: it exists afterwards whenever the download is reported successful, and
  whenever the load succeeds and no regular file lies on the path; when the load
  fails the file system is left as it was.
\<close>

theorem choice_three:
  assumes "datasets_version en = Some v" and "strip line = ''3''"
  shows "\<exists>ok w'. selector_script en line w = (Inr (0, [(''MBPP'', ok)]), w') \<and>
     (ok \<longrightarrow> is_dir (fs w') [''data'', ''raw'', ''mbpp'']) \<and>
     (load_dataset en (length (requests w)) ''mbpp'' = None \<longrightarrow> \<not> ok \<and> fs w' = fs w) \<and>
     (load_dataset en (length (requests w)) ''mbpp'' \<noteq> None \<longrightarrow>
        (\<forall>f1. mkdir_p (fs w) [''data'', ''raw'', ''mbpp''] = Inr f1 \<longrightarrow>
              is_dir (fs w') [''data'', ''raw'', ''mbpp'']))"
proof -
  let ?w0 = "w\<lparr>out := out w @ [(''datasets package version'', [S v]),
                                   (''What to download? (1-4): '', [])]\<rparr>"
  have "\<exists>ok w1. download_mbpp en ?w0 = (Inr ok, w1) \<and>
     (ok \<longrightarrow> is_dir (fs w1) [''data'', ''raw'', ''mbpp'']) \<and>
     (load_dataset en (length (requests w)) ''mbpp'' = None \<longrightarrow> \<not> ok \<and> fs w1 = fs w) \<and>
     (load_dataset en (length (requests w)) ''mbpp'' \<noteq> None \<longrightarrow>
        (\<forall>f1. mkdir_p (fs w) [''data'', ''raw'', ''mbpp''] = Inr f1 \<longrightarrow>
              is_dir (fs w1) [''data'', ''raw'', ''mbpp'']))"
    using download_mbpp_facts [of en ?w0] by auto
  then obtain ok w1 where run: "download_mbpp en ?w0 = (Inr ok, w1)"
    and d: "ok \<longrightarrow> is_dir (fs w1) [''data'', ''raw'', ''mbpp'']"
    and n: "load_dataset en (length (requests w)) ''mbpp'' = None \<longrightarrow> \<not> ok \<and> fs w1 = fs w"
    and s: "load_dataset en (length (requests w)) ''mbpp'' \<noteq> None \<longrightarrow>
        (\<forall>f1. mkdir_p (fs w) [''data'', ''raw'', ''mbpp''] = Inr f1 \<longrightarrow>
              is_dir (fs w1) [''data'', ''raw'', ''mbpp''])"
    by (elim exE conjE)
  obtain w2 where sm: "summary [(''MBPP'', ok)] w1 = (Inr (), w2)" and f2: "fs w2 = fs w1"
    by (simp add: summary_run)
  from assms run sm have "selector_script en line w = (Inr (0, [(''MBPP'', ok)]), w2)"
    by (simp add: selector_script_def dispatch_def seq_run bind_run Let_def)
  with d n s f2 show ?thesis by simp
qed

theorem choice_three_witness:
  "datasets_version env_online = Some ''2.14.0'' \<and> strip '' 3 '' = ''3'' \<and>
   (\<exists>ok w'. selector_script env_online '' 3 '' (start []) = (Inr (0, [(''MBPP'', ok)]), w') \<and>
      (ok \<longrightarrow> is_dir (fs w') [''data'', ''raw'', ''mbpp'']))"
proof -
  have a: "datasets_version env_online = Some ''2.14.0''" by (simp add: env_online_def)
  have b: "strip '' 3 '' = ''3''" by (simp add: strip_def isspace_def)
  from choice_three [OF a b, of "start []"] a b show ?thesis by blast
qed

theorem choice_three_counterexample:
  "strip ''3'' = ''3'' \<and>
   fst (selector_script env_offline ''3'' (start [])) = Inr (0, [(''MBPP'', False)]) \<and>
   \<not> exists_path (fs (snd (selector_script env_offline ''3'' (start [])))) [''data'', ''raw'', ''mbpp'']"
  by (simp add: sel3_offline strip_def isspace_def exists_path_def lookup_def)




lemma codesearchnet_silent: "stays_in silent download_codesearchnet_github"
  unfolding download_codesearchnet_github_def Let_def by (intro silent_intros)

lemma stackoverflow_silent: "stays_in silent (download_stackoverflow_csv en)"
  unfolding download_stackoverflow_csv_def Let_def by (intro silent_intros)

lemma silent_requests: "stays_in silent m \<Longrightarrow> requests (snd (m w)) = requests w"
  by (simp add: stays_in_def silent_def)

lemma codesearchnet_fresh:
  "download_codesearchnet_github (start []) =
     (Inr [''data'', ''raw'', ''codesearchnet''],
      \<lparr>fs = [([''data''], Dir), ([''data'', ''raw''], Dir),
              ([''data'', ''raw'', ''codesearchnet''], Dir),
              ([''data'', ''raw'', ''codesearchnet'', ''README.txt''], File codesearchnet_readme)],
       out = [(''CodeSearchNet structure created'', [])],
       requests = []\<rparr>)"
  by (simp add: download_codesearchnet_github_def Let_def seq_run mkdir_run write_text_run
                mkdir_p.simps write_file_def is_dir_def lookup_def BASE_DIR_def start_def)

lemma codesearchnet_run:
  "download_codesearchnet_github w =
     (case mkdir_p (fs w) (BASE_DIR @ [''codesearchnet'']) of
        Inl e \<Rightarrow> (Inl e, w)
      | Inr f1 \<Rightarrow>
          (case write_file f1 (BASE_DIR @ [''codesearchnet'', ''README.txt'']) codesearchnet_readme of
             Inl e \<Rightarrow> (Inl e, w\<lparr>fs := f1\<rparr>)
           | Inr f2 \<Rightarrow>
               (Inr (BASE_DIR @ [''codesearchnet'']),
                w\<lparr>fs := f2, out := out w @ [(''CodeSearchNet structure created'', [])]\<rparr>)))"
  by (simp add: download_codesearchnet_github_def Let_def seq_run mkdir_run write_text_run
           split: sum.splits)

lemma stackoverflow_run:
  "download_stackoverflow_csv en w =
     (case mkdir_p (fs w) (BASE_DIR @ [''stackoverflow'']) of
        Inl e \<Rightarrow> (Inl e, w)
      | Inr f1 \<Rightarrow>
          (case write_file f1 (BASE_DIR @ [''stackoverflow'', ''stackoverflow_sample.json''])
                  (json_dumps en (JList sample_data)) of
             Inl e \<Rightarrow> (Inl e, w\<lparr>fs := f1\<rparr>)
           | Inr f2 \<Rightarrow>
               (case write_file f2 (BASE_DIR @ [''stackoverflow'', ''DOWNLOAD_OPTIONS.txt''])
                       download_options_text of
                  Inl e \<Rightarrow> (Inl e, w\<lparr>fs := f2\<rparr>)
                | Inr f3 \<Rightarrow>
                    (Inr (BASE_DIR @ [''stackoverflow'']),
                     w\<lparr>fs := f3,
                       out := out w @ [(''Sample Stack Overflow data created (100 examples)'', []),
                                       (''Instructions saved'',
                                        [P (BASE_DIR @ [''stackoverflow'', ''DOWNLOAD_OPTIONS.txt''])])]\<rparr>))))"
  by (simp add: download_stackoverflow_csv_def Let_def seq_run mkdir_run write_text_run
           split: sum.splits)





lemma not_prefix_ext: "\<not> is_prefix (p @ [n]) p"
  by (simp add: is_prefix_def)

lemma mkdir_p_child: "mkdir_p f p = Inr f1 \<Longrightarrow> lookup f1 (p @ [n]) = lookup f (p @ [n])"
  using mkdir_p_frame [of f p f1] not_prefix_ext [of p n] by (simp add: frame_def)






lemma write_file_keeps_file: "write_file f p c = Inr f' \<Longrightarrow> is_file f q \<Longrightarrow> is_file f' q"
  by (simp add: is_file_def write_file_lookup)

lemma write_file_is_file: "write_file f p c = Inr f' \<Longrightarrow> is_file f' p"
  by (simp add: is_file_def write_file_lookup)

lemma write_file_no_new_dir: "write_file f p c = Inr f' \<Longrightarrow> \<not> is_dir f q \<Longrightarrow> \<not> is_dir f' q"
  by (simp add: is_dir_def write_file_lookup)

lemma write_all_keeps_file:
  "write_all d files w = (r, w') \<Longrightarrow> is_file (fs w) q \<Longrightarrow> is_file (fs w') q"
proof (induction files arbitrary: w)
  case Nil
  then show ?case by simp
next
  case (Cons a files)
  obtain n c where a: "a = (n, c)" by (cases a)
  show ?case
  proof (cases "write_file (fs w) (d @ [n]) c")
    case (Inl e)
    with Cons.prems show ?thesis by (auto simp: a seq_run write_text_run)
  next
    case (Inr f')
    with Cons.prems have "write_all d files (w\<lparr>fs := f'\<rparr>) = (r, w')"
      by (simp add: a seq_run write_text_run)
    moreover from Inr Cons.prems(2) have "is_file (fs (w\<lparr>fs := f'\<rparr>)) q"
      by (simp add: write_file_keeps_file)
    ultimately show ?thesis by (rule Cons.IH)
  qed
qed

text \<open>When the library's writes all succeed, each of its files is there.\<close>

lemma write_all_saved:
  "write_all d files w = (Inr u, w') \<Longrightarrow> \<forall>(n, c) \<in> set files. is_file (fs w') (d @ [n])"
proof (induction files arbitrary: w)
  case Nil
  then show ?case by simp
next
  case (Cons a files)
  obtain n c where a: "a = (n, c)" by (cases a)
  show ?case
  proof (cases "write_file (fs w) (d @ [n]) c")
    case (Inl e)
    with Cons.prems show ?thesis by (simp add: a seq_run write_text_run)
  next
    case (Inr f')
    with Cons.prems have rest: "write_all d files (w\<lparr>fs := f'\<rparr>) = (Inr u, w')"
      by (simp add: a seq_run write_text_run)
    from Inr have "is_file (fs (w\<lparr>fs := f'\<rparr>)) (d @ [n])"
      by (simp add: write_file_is_file)
    with rest have "is_file (fs w') (d @ [n])" by (rule write_all_keeps_file)
    with Cons.IH [OF rest] show ?thesis by (simp add: a)
  qed
qed

text \<open>The writes succeed when the directory is there and no file name is taken by a
  directory; they print nothing and make no request.\<close>

lemma write_all_ok:
  "is_dir (fs w) d \<Longrightarrow> \<forall>(n, c) \<in> set files. \<not> is_dir (fs w) (d @ [n]) \<Longrightarrow>
   \<exists>w'. write_all d files w = (Inr (), w') \<and> out w' = out w \<and> requests w' = requests w"
proof (induction files arbitrary: w)
  case Nil
  show ?case by simp
next
  case (Cons a files)
  obtain n c where a: "a = (n, c)" by (cases a)
  from Cons.prems have nd: "\<not> is_dir (fs w) (d @ [n])" by (simp add: a)
  with Cons.prems(1)
  have wf: "write_file (fs w) (d @ [n]) c = Inr (AList.update (d @ [n]) (File c) (fs w))"
    by (simp add: write_file_ok)
  let ?w1 = "w\<lparr>fs := AList.update (d @ [n]) (File c) (fs w)\<rparr>"
  from wf Cons.prems(1) have d1: "is_dir (fs ?w1) d" by (simp add: write_file_keeps_dir)
  have n1: "\<forall>(n, c) \<in> set files. \<not> is_dir (fs ?w1) (d @ [n])"
    using Cons.prems(2) wf by (auto simp: a dest: write_file_no_new_dir)
  from Cons.IH [OF d1 n1] obtain w' where "write_all d files ?w1 = (Inr (), w')"
    and "out w' = out w" and "requests w' = requests w"
    by auto
  with wf show ?case by (simp add: a seq_run write_text_run)
qed

lemma hub_rest_run:
  assumes "is_dir (fs w) p"
  shows "hub_rest en ds p preview banner w =
     (case write_all p (arrow_files en ds) (w\<lparr>out := out w @ [(''Saving to'', [P p])]\<rparr>) of
        (Inl e, w1) \<Rightarrow> (Inl e, w1)
      | (Inr u, w1) \<Rightarrow>
          (case ds of
             [] \<Rightarrow> (Inl IndexError, w1)
           | r # rs \<Rightarrow> (Inr True, w1\<lparr>out := out w1 @ preview r @ [(banner, [])]\<rparr>)))"
  using assms
  by (simp add: hub_rest_def save_to_disk_def seq_run bind_run mkdir_run mkdir_p_existing
                first_row_def print_all_run
           split: prod.splits sum.splits list.splits)

lemma hub_routine_saves:
  assumes load: "load_dataset en (length (requests w)) name = Some ds"
    and mk: "mkdir_p (fs w) p = Inr f1"
  shows "\<exists>ok w'. hub_routine en name p preview banner w = (Inr ok, w') \<and>
     (ok \<longrightarrow> (\<forall>(n, c) \<in> set (arrow_files en ds). is_file (fs w') (p @ [n]))) \<and>
     (ds \<noteq> [] \<longrightarrow> (\<forall>(n, c) \<in> set (arrow_files en ds). \<not> is_dir (fs w) (p @ [n])) \<longrightarrow> ok)"
proof -
  let ?w1 = "w\<lparr>requests := requests w @ [HubLoad name],
                 out := out w @ [(''Loaded examples'', [N (length ds)])], fs := f1\<rparr>"
  let ?w2 = "?w1\<lparr>out := out ?w1 @ [(''Saving to'', [P p])]\<rparr>"
  let ?h = "\<lambda>e. seq (print (''Failed'', [E e])) (return False)"
  from mk have d1: "is_dir (fs ?w1) p" by (simp add: mkdir_p_is_dir)
  have hr: "hub_routine en name p preview banner w =
            try_except (hub_rest en ds p preview banner) ?h ?w1"
    using load mk by (simp add: hub_routine_run)
  obtain r w3 where wa: "write_all p (arrow_files en ds) ?w2 = (r, w3)"
    by (cases "write_all p (arrow_files en ds) ?w2")
  have nd: "(\<forall>(n, c) \<in> set (arrow_files en ds). \<not> is_dir (fs w) (p @ [n])) \<Longrightarrow>
            \<exists>u. r = Inr u"
  proof -
    assume a: "\<forall>(n, c) \<in> set (arrow_files en ds). \<not> is_dir (fs w) (p @ [n])"
    have "\<forall>(n, c) \<in> set (arrow_files en ds). \<not> is_dir (fs ?w2) (p @ [n])"
      using a mk by (auto simp: is_dir_def mkdir_p_child)
    moreover from d1 have "is_dir (fs ?w2) p" by simp
    ultimately obtain w' where "write_all p (arrow_files en ds) ?w2 = (Inr (), w')"
      using write_all_ok [of ?w2 p "arrow_files en ds"] by blast
    with wa show ?thesis by simp
  qed
  show ?thesis
  proof (cases r)
    case (Inl e)
    with wa d1 hr nd show ?thesis
      by (auto simp: try_except_run hub_rest_run seq_run)
  next
    case (Inr u)
    with wa have saved: "\<forall>(n, c) \<in> set (arrow_files en ds). is_file (fs w3) (p @ [n])"
      by (auto dest: write_all_saved)
    show ?thesis
    proof (cases ds)
      case Nil
      with Inr wa d1 hr show ?thesis
        by (auto simp: try_except_run hub_rest_run seq_run)
    next
      case (Cons row rows)
      with Inr wa d1 hr saved show ?thesis
        by (auto simp: try_except_run hub_rest_run seq_run)
    qed
  qed
qed

text \<open>A hub routine, all told.\<close>

lemma hub_routine_persist:
  "\<exists>ok w'. hub_routine en name p preview banner w = (Inr ok, w') \<and>
     requests w' = requests w @ [HubLoad name] \<and>
     (load_dataset en (length (requests w)) name = None \<longrightarrow> \<not> ok \<and> fs w' = fs w) \<and>
     (ok \<longrightarrow> (\<exists>ds. load_dataset en (length (requests w)) name = Some ds \<and> is_dir (fs w') p \<and>
                   (\<forall>(n, c) \<in> set (arrow_files en ds). is_file (fs w') (p @ [n])))) \<and>
     (\<forall>ds f1. load_dataset en (length (requests w)) name = Some ds \<longrightarrow> ds \<noteq> [] \<longrightarrow>
         mkdir_p (fs w) p = Inr f1 \<longrightarrow>
         (\<forall>(n, c) \<in> set (arrow_files en ds). \<not> is_dir (fs w) (p @ [n])) \<longrightarrow> ok)"
proof -
  from hub_routine_facts [of en name p preview banner w]
  obtain ok w' where run: "hub_routine en name p preview banner w = (Inr ok, w')"
    and rq: "requests w' = requests w @ [HubLoad name]"
    and dir: "ok \<longrightarrow> is_dir (fs w') p"
    and none: "load_dataset en (length (requests w)) name = None \<longrightarrow> \<not> ok \<and> fs w' = fs w"
    by (elim exE conjE)
  have saved: "ok \<longrightarrow> (\<exists>ds. load_dataset en (length (requests w)) name = Some ds \<and> is_dir (fs w') p \<and>
                   (\<forall>(n, c) \<in> set (arrow_files en ds). is_file (fs w') (p @ [n])))"
  proof
    assume ok
    with none obtain ds where ds: "load_dataset en (length (requests w)) name = Some ds"
      by (cases "load_dataset en (length (requests w)) name") auto
    show "\<exists>ds. load_dataset en (length (requests w)) name = Some ds \<and> is_dir (fs w') p \<and>
                   (\<forall>(n, c) \<in> set (arrow_files en ds). is_file (fs w') (p @ [n]))"
    proof (cases "mkdir_p (fs w) p")
      case (Inl e)
      with ds run \<open>ok\<close> show ?thesis by (simp add: hub_routine_run)
    next
      case (Inr f1)
      from hub_routine_saves [OF ds Inr, of preview banner] run \<open>ok\<close>
      have "\<forall>(n, c) \<in> set (arrow_files en ds). is_file (fs w') (p @ [n])" by auto
      with ds dir \<open>ok\<close> show ?thesis by blast
    qed
  qed
  have succ: "\<forall>ds f1. load_dataset en (length (requests w)) name = Some ds \<longrightarrow> ds \<noteq> [] \<longrightarrow>
         mkdir_p (fs w) p = Inr f1 \<longrightarrow>
         (\<forall>(n, c) \<in> set (arrow_files en ds). \<not> is_dir (fs w) (p @ [n])) \<longrightarrow> ok"
  proof (intro allI impI)
    fix ds f1
    assume ds: "load_dataset en (length (requests w)) name = Some ds" and ne: "ds \<noteq> []"
      and mk: "mkdir_p (fs w) p = Inr f1"
      and nd: "\<forall>(n, c) \<in> set (arrow_files en ds). \<not> is_dir (fs w) (p @ [n])"
    from hub_routine_saves [OF ds mk, of preview banner] run ne nd show ok by auto
  qed
  from run rq none saved succ show ?thesis
    by (intro exI [of _ ok] exI [of _ w'] conjI)
qed

lemma write_file_child:
  "is_dir f d \<Longrightarrow> \<not> is_dir f (d @ [n]) \<Longrightarrow>
   write_file f (d @ [n]) c = Inr (AList.update (d @ [n]) (File c) f)"
  by (simp add: write_file_ok)

lemma codesearchnet_writes:
  assumes "mkdir_p (fs w) (BASE_DIR @ [''codesearchnet'']) = Inr f1"
    and "\<not> is_dir (fs w) (BASE_DIR @ [''codesearchnet'', ''README.txt''])"
  shows "\<exists>w'. download_codesearchnet_github w = (Inr (BASE_DIR @ [''codesearchnet'']), w') \<and>
     is_dir (fs w') (BASE_DIR @ [''codesearchnet'']) \<and>
     lookup (fs w') (BASE_DIR @ [''codesearchnet'', ''README.txt'']) = Some (File codesearchnet_readme)"
proof -
  let ?d = "BASE_DIR @ [''codesearchnet'']"
  have p: "BASE_DIR @ [''codesearchnet'', ''README.txt''] = ?d @ [''README.txt'']" by simp
  from assms(1) have d1: "is_dir f1 ?d" by (rule mkdir_p_is_dir)
  have n1: "\<not> is_dir f1 (?d @ [''README.txt''])"
    using assms(2) mkdir_p_child [OF assms(1), of "''README.txt''"] by (simp add: is_dir_def)
  have w1: "write_file f1 (?d @ [''README.txt'']) codesearchnet_readme =
            Inr (AList.update (?d @ [''README.txt'']) (File codesearchnet_readme) f1)"
    by (rule write_file_child [OF d1 n1])
  from d1 have "is_dir (AList.update (?d @ [''README.txt'']) (File codesearchnet_readme) f1) ?d"
    by (simp add: is_dir_def lookup_update)
  with assms(1) w1 show ?thesis
    unfolding p by (simp add: codesearchnet_run lookup_update)
qed

lemma stackoverflow_writes:
  assumes "mkdir_p (fs w) (BASE_DIR @ [''stackoverflow'']) = Inr f1"
    and "\<not> is_dir (fs w) (BASE_DIR @ [''stackoverflow'', ''stackoverflow_sample.json''])"
    and "\<not> is_dir (fs w) (BASE_DIR @ [''stackoverflow'', ''DOWNLOAD_OPTIONS.txt''])"
  shows "\<exists>w'. download_stackoverflow_csv en w = (Inr (BASE_DIR @ [''stackoverflow'']), w') \<and>
     is_dir (fs w') (BASE_DIR @ [''stackoverflow'']) \<and>
     lookup (fs w') (BASE_DIR @ [''stackoverflow'', ''stackoverflow_sample.json'']) =
       Some (File (json_dumps en (JList sample_data))) \<and>
     lookup (fs w') (BASE_DIR @ [''stackoverflow'', ''DOWNLOAD_OPTIONS.txt'']) =
       Some (File download_options_text)"
proof -
  let ?d = "BASE_DIR @ [''stackoverflow'']"
  let ?c = "json_dumps en (JList sample_data)"
  have p: "BASE_DIR @ [''stackoverflow'', ''stackoverflow_sample.json''] = ?d @ [''stackoverflow_sample.json'']"
    and q: "BASE_DIR @ [''stackoverflow'', ''DOWNLOAD_OPTIONS.txt''] = ?d @ [''DOWNLOAD_OPTIONS.txt'']"
    by simp_all
  from assms(1) have d1: "is_dir f1 ?d" by (rule mkdir_p_is_dir)
  have n1: "\<not> is_dir f1 (?d @ [''stackoverflow_sample.json''])"
    using assms(2) mkdir_p_child [OF assms(1), of "''stackoverflow_sample.json''"]
    by (simp add: is_dir_def)
  have n2: "\<not> is_dir f1 (?d @ [''DOWNLOAD_OPTIONS.txt''])"
    using assms(3) mkdir_p_child [OF assms(1), of "''DOWNLOAD_OPTIONS.txt''"]
    by (simp add: is_dir_def)
  let ?f2 = "AList.update (?d @ [''stackoverflow_sample.json'']) (File ?c) f1"
  have w1: "write_file f1 (?d @ [''stackoverflow_sample.json'']) ?c = Inr ?f2"
    by (rule write_file_child [OF d1 n1])
  from d1 have d2: "is_dir ?f2 ?d" by (simp add: is_dir_def lookup_update)
  from n2 have n3: "\<not> is_dir ?f2 (?d @ [''DOWNLOAD_OPTIONS.txt''])"
    by (simp add: is_dir_def lookup_update)
  let ?f3 = "AList.update (?d @ [''DOWNLOAD_OPTIONS.txt'']) (File download_options_text) ?f2"
  have w2: "write_file ?f2 (?d @ [''DOWNLOAD_OPTIONS.txt'']) download_options_text = Inr ?f3"
    by (rule write_file_child [OF d2 n3])
  from d2 have d3: "is_dir ?f3 ?d" by (simp add: is_dir_def lookup_update)
  have l1: "lookup ?f3 (?d @ [''stackoverflow_sample.json'']) = Some (File ?c)"
    by (simp add: lookup_update)
  have l2: "lookup ?f3 (?d @ [''DOWNLOAD_OPTIONS.txt'']) = Some (File download_options_text)"
    by (simp add: lookup_update)
  from assms(1) w1 w2 d3 l1 l2 show ?thesis
    unfolding p q by (simp add: stackoverflow_run)
qed

text \<open>
  Claim C8, as the code has it. In the combined script download_codesearchnet_github
  and download_stackoverflow_csv make no network request at all. Whenever their
  directory can be made and their file names are not taken by directories, they
  write literal content under it (README.txt; stackoverflow_sample.json with 100
  literal records and DOWNLOAD_OPTIONS.txt) and return the directory path, not a
  boolean. In the selector script each acquisition routine returns a boolean and
  makes exactly one hub call, before anything is persisted: when the call fails the
  result is False and nothing has been written; the result is True only after the
  directory exists and the files of the dataset have been written into it, and it is
  True whenever the call gives a dataset that is not empty and the directory and the
  files can be written.
\<close>

theorem network_use:
  "requests (snd (download_codesearchnet_github w)) = requests w \<and>
   (\<forall>f1. mkdir_p (fs w) (BASE_DIR @ [''codesearchnet'']) = Inr f1 \<longrightarrow>
      \<not> is_dir (fs w) (BASE_DIR @ [''codesearchnet'', ''README.txt'']) \<longrightarrow>
      (\<exists>w'. download_codesearchnet_github w = (Inr (BASE_DIR @ [''codesearchnet'']), w') \<and>
         is_dir (fs w') (BASE_DIR @ [''codesearchnet'']) \<and>
         lookup (fs w') (BASE_DIR @ [''codesearchnet'', ''README.txt'']) =
           Some (File codesearchnet_readme))) \<and>
   requests (snd (download_stackoverflow_csv en w)) = requests w \<and>
   (\<forall>f1. mkdir_p (fs w) (BASE_DIR @ [''stackoverflow'']) = Inr f1 \<longrightarrow>
      \<not> is_dir (fs w) (BASE_DIR @ [''stackoverflow'', ''stackoverflow_sample.json'']) \<longrightarrow>
      \<not> is_dir (fs w) (BASE_DIR @ [''stackoverflow'', ''DOWNLOAD_OPTIONS.txt'']) \<longrightarrow>
      (\<exists>w'. download_stackoverflow_csv en w = (Inr (BASE_DIR @ [''stackoverflow'']), w') \<and>
         is_dir (fs w') (BASE_DIR @ [''stackoverflow'']) \<and>
         lookup (fs w') (BASE_DIR @ [''stackoverflow'', ''stackoverflow_sample.json'']) =
           Some (File (json_dumps en (JList sample_data))) \<and>
         lookup (fs w') (BASE_DIR @ [''stackoverflow'', ''DOWNLOAD_OPTIONS.txt'']) =
           Some (File download_options_text))) \<and>
   length sample_data = 100 \<and>
   (\<exists>ok w'. download_code_alpaca en w = (Inr ok, w') \<and>
      requests w' = requests w @ [HubLoad ''sahil2801/CodeAlpaca-20k''] \<and>
      (load_dataset en (length (requests w)) ''sahil2801/CodeAlpaca-20k'' = None \<longrightarrow> \<not> ok \<and> fs w' = fs w) \<and>
      (ok \<longrightarrow> (\<exists>ds. load_dataset en (length (requests w)) ''sahil2801/CodeAlpaca-20k'' = Some ds \<and>
                   is_dir (fs w') [''data'', ''raw'', ''code_alpaca''] \<and>
                   (\<forall>(n, c) \<in> set (arrow_files en ds). is_file (fs w') ([''data'', ''raw'', ''code_alpaca''] @ [n])))) \<and>
      (\<forall>ds f1. load_dataset en (length (requests w)) ''sahil2801/CodeAlpaca-20k'' = Some ds \<longrightarrow> ds \<noteq> [] \<longrightarrow>
         mkdir_p (fs w) [''data'', ''raw'', ''code_alpaca''] = Inr f1 \<longrightarrow>
         (\<forall>(n, c) \<in> set (arrow_files en ds). \<not> is_dir (fs w) ([''data'', ''raw'', ''code_alpaca''] @ [n])) \<longrightarrow> ok)) \<and>
   (\<exists>ok w'. download_python_instructions en w = (Inr ok, w') \<and>
      requests w' = requests w @ [HubLoad ''Iamtarun/python_code_instructions_18k_alpaca''] \<and>
      (load_dataset en (length (requests w)) ''Iamtarun/python_code_instructions_18k_alpaca'' = None \<longrightarrow> \<not> ok \<and> fs w' = fs w) \<and>
      (ok \<longrightarrow> (\<exists>ds. load_dataset en (length (requests w)) ''Iamtarun/python_code_instructions_18k_alpaca'' = Some ds \<and>
                   is_dir (fs w') [''data'', ''raw'', ''python_instructions''] \<and>
                   (\<forall>(n, c) \<in> set (arrow_files en ds). is_file (fs w') ([''data'', ''raw'', ''python_instructions''] @ [n])))) \<and>
      (\<forall>ds f1. load_dataset en (length (requests w)) ''Iamtarun/python_code_instructions_18k_alpaca'' = Some ds \<longrightarrow> ds \<noteq> [] \<longrightarrow>
         mkdir_p (fs w) [''data'', ''raw'', ''python_instructions''] = Inr f1 \<longrightarrow>
         (\<forall>(n, c) \<in> set (arrow_files en ds). \<not> is_dir (fs w) ([''data'', ''raw'', ''python_instructions''] @ [n])) \<longrightarrow> ok)) \<and>
   (\<exists>ok w'. download_mbpp en w = (Inr ok, w') \<and>
      requests w' = requests w @ [HubLoad ''mbpp''] \<and>
      (load_dataset en (length (requests w)) ''mbpp'' = None \<longrightarrow> \<not> ok \<and> fs w' = fs w) \<and>
      (ok \<longrightarrow> (\<exists>ds. load_dataset en (length (requests w)) ''mbpp'' = Some ds \<and>
                   is_dir (fs w') [''data'', ''raw'', ''mbpp''] \<and>
                   (\<forall>(n, c) \<in> set (arrow_files en ds). is_file (fs w') ([''data'', ''raw'', ''mbpp''] @ [n])))) \<and>
      (\<forall>ds f1. load_dataset en (length (requests w)) ''mbpp'' = Some ds \<longrightarrow> ds \<noteq> [] \<longrightarrow>
         mkdir_p (fs w) [''data'', ''raw'', ''mbpp''] = Inr f1 \<longrightarrow>
         (\<forall>(n, c) \<in> set (arrow_files en ds). \<not> is_dir (fs w) ([''data'', ''raw'', ''mbpp''] @ [n])) \<longrightarrow> ok))"
proof (intro conjI)
  show "requests (snd (download_codesearchnet_github w)) = requests w"
    by (rule silent_requests [OF codesearchnet_silent])
  show "(\<forall>f1. mkdir_p (fs w) (BASE_DIR @ [''codesearchnet'']) = Inr f1 \<longrightarrow>
      \<not> is_dir (fs w) (BASE_DIR @ [''codesearchnet'', ''README.txt'']) \<longrightarrow>
      (\<exists>w'. download_codesearchnet_github w = (Inr (BASE_DIR @ [''codesearchnet'']), w') \<and>
         is_dir (fs w') (BASE_DIR @ [''codesearchnet'']) \<and>
         lookup (fs w') (BASE_DIR @ [''codesearchnet'', ''README.txt'']) =
           Some (File codesearchnet_readme)))"
    using codesearchnet_writes by blast
  show "requests (snd (download_stackoverflow_csv en w)) = requests w"
    by (rule silent_requests [OF stackoverflow_silent])
  show "(\<forall>f1. mkdir_p (fs w) (BASE_DIR @ [''stackoverflow'']) = Inr f1 \<longrightarrow>
      \<not> is_dir (fs w) (BASE_DIR @ [''stackoverflow'', ''stackoverflow_sample.json'']) \<longrightarrow>
      \<not> is_dir (fs w) (BASE_DIR @ [''stackoverflow'', ''DOWNLOAD_OPTIONS.txt'']) \<longrightarrow>
      (\<exists>w'. download_stackoverflow_csv en w = (Inr (BASE_DIR @ [''stackoverflow'']), w') \<and>
         is_dir (fs w') (BASE_DIR @ [''stackoverflow'']) \<and>
         lookup (fs w') (BASE_DIR @ [''stackoverflow'', ''stackoverflow_sample.json'']) =
           Some (File (json_dumps en (JList sample_data))) \<and>
         lookup (fs w') (BASE_DIR @ [''stackoverflow'', ''DOWNLOAD_OPTIONS.txt'']) =
           Some (File download_options_text)))"
    using stackoverflow_writes by blast
  show "length sample_data = 100" by (simp add: sample_data_def)
  show "(\<exists>ok w'. download_code_alpaca en w = (Inr ok, w') \<and>
      requests w' = requests w @ [HubLoad ''sahil2801/CodeAlpaca-20k''] \<and>
      (load_dataset en (length (requests w)) ''sahil2801/CodeAlpaca-20k'' = None \<longrightarrow> \<not> ok \<and> fs w' = fs w) \<and>
      (ok \<longrightarrow> (\<exists>ds. load_dataset en (length (requests w)) ''sahil2801/CodeAlpaca-20k'' = Some ds \<and>
                   is_dir (fs w') [''data'', ''raw'', ''code_alpaca''] \<and>
                   (\<forall>(n, c) \<in> set (arrow_files en ds). is_file (fs w') ([''data'', ''raw'', ''code_alpaca''] @ [n])))) \<and>
      (\<forall>ds f1. load_dataset en (length (requests w)) ''sahil2801/CodeAlpaca-20k'' = Some ds \<longrightarrow> ds \<noteq> [] \<longrightarrow>
         mkdir_p (fs w) [''data'', ''raw'', ''code_alpaca''] = Inr f1 \<longrightarrow>
         (\<forall>(n, c) \<in> set (arrow_files en ds). \<not> is_dir (fs w) ([''data'', ''raw'', ''code_alpaca''] @ [n])) \<longrightarrow> ok))"
    unfolding download_code_alpaca_def by (rule hub_routine_persist)
  show "(\<exists>ok w'. download_python_instructions en w = (Inr ok, w') \<and>
      requests w' = requests w @ [HubLoad ''Iamtarun/python_code_instructions_18k_alpaca''] \<and>
      (load_dataset en (length (requests w)) ''Iamtarun/python_code_instructions_18k_alpaca'' = None \<longrightarrow> \<not> ok \<and> fs w' = fs w) \<and>
      (ok \<longrightarrow> (\<exists>ds. load_dataset en (length (requests w)) ''Iamtarun/python_code_instructions_18k_alpaca'' = Some ds \<and>
                   is_dir (fs w') [''data'', ''raw'', ''python_instructions''] \<and>
                   (\<forall>(n, c) \<in> set (arrow_files en ds). is_file (fs w') ([''data'', ''raw'', ''python_instructions''] @ [n])))) \<and>
      (\<forall>ds f1. load_dataset en (length (requests w)) ''Iamtarun/python_code_instructions_18k_alpaca'' = Some ds \<longrightarrow> ds \<noteq> [] \<longrightarrow>
         mkdir_p (fs w) [''data'', ''raw'', ''python_instructions''] = Inr f1 \<longrightarrow>
         (\<forall>(n, c) \<in> set (arrow_files en ds). \<not> is_dir (fs w) ([''data'', ''raw'', ''python_instructions''] @ [n])) \<longrightarrow> ok))"
    unfolding download_python_instructions_def by (rule hub_routine_persist)
  show "(\<exists>ok w'. download_mbpp en w = (Inr ok, w') \<and>
      requests w' = requests w @ [HubLoad ''mbpp''] \<and>
      (load_dataset en (length (requests w)) ''mbpp'' = None \<longrightarrow> \<not> ok \<and> fs w' = fs w) \<and>
      (ok \<longrightarrow> (\<exists>ds. load_dataset en (length (requests w)) ''mbpp'' = Some ds \<and>
                   is_dir (fs w') [''data'', ''raw'', ''mbpp''] \<and>
                   (\<forall>(n, c) \<in> set (arrow_files en ds). is_file (fs w') ([''data'', ''raw'', ''mbpp''] @ [n])))) \<and>
      (\<forall>ds f1. load_dataset en (length (requests w)) ''mbpp'' = Some ds \<longrightarrow> ds \<noteq> [] \<longrightarrow>
         mkdir_p (fs w) [''data'', ''raw'', ''mbpp''] = Inr f1 \<longrightarrow>
         (\<forall>(n, c) \<in> set (arrow_files en ds). \<not> is_dir (fs w) ([''data'', ''raw'', ''mbpp''] @ [n])) \<longrightarrow> ok))"
    unfolding download_mbpp_def by (rule hub_routine_persist)
qed

lemma mbpp_online_ready:
  "load_dataset env_online (length (requests (start []))) ''mbpp'' =
     Some [[(''text'', ''Write a function''), (''code'', ''def f(): pass'')],
           [(''text'', ''Another task''), (''code'', ''def g(): pass'')]] \<and>
   mkdir_p (fs (start [])) [''data'', ''raw'', ''mbpp''] =
     Inr [([''data''], Dir), ([''data'', ''raw''], Dir), ([''data'', ''raw'', ''mbpp''], Dir)] \<and>
   (\<forall>(n, c) \<in> set (arrow_files env_online
        [[(''text'', ''Write a function''), (''code'', ''def f(): pass'')],
         [(''text'', ''Another task''), (''code'', ''def g(): pass'')]]).
      \<not> is_dir (fs (start [])) ([''data'', ''raw'', ''mbpp''] @ [n]))"
  by (simp add: env_online_def start_def mkdir_p.simps lookup_def is_dir_def)

theorem network_use_witness:
  "load_dataset env_offline (length (requests (start []))) ''mbpp'' = None \<and>
   fst (download_mbpp env_offline (start [])) = Inr False \<and>
   fs (snd (download_mbpp env_offline (start []))) = fs (start []) \<and>
   load_dataset env_online (length (requests (start []))) ''mbpp'' \<noteq> None \<and>
   fst (download_mbpp env_online (start [])) = Inr True \<and>
   is_dir (fs (snd (download_mbpp env_online (start [])))) [''data'', ''raw'', ''mbpp''] \<and>
   requests (snd (download_codesearchnet_github (start []))) = []"
proof -
  note off = network_use [where en = env_offline and w = "start []", THEN conjunct2, THEN conjunct2, THEN conjunct2, THEN conjunct2, THEN conjunct2, THEN conjunct2, THEN conjunct2]
  note on = network_use [where en = env_online and w = "start []", THEN conjunct2, THEN conjunct2, THEN conjunct2, THEN conjunct2, THEN conjunct2, THEN conjunct2, THEN conjunct2]
  note cs = network_use [where en = env_offline and w = "start []", THEN conjunct1]
  have n: "load_dataset env_offline (length (requests (start []))) ''mbpp'' = None"
    by (simp add: env_offline_def)
  from off obtain ok w' where r: "download_mbpp env_offline (start []) = (Inr ok, w')"
    and f: "load_dataset env_offline (length (requests (start []))) ''mbpp'' = None \<longrightarrow>
            \<not> ok \<and> fs w' = fs (start [])"
    by (elim exE conjE)
  from r f n have a: "fst (download_mbpp env_offline (start [])) = Inr False \<and>
      fs (snd (download_mbpp env_offline (start []))) = fs (start [])"
    by simp
  from on obtain ok2 w2 where r2: "download_mbpp env_online (start []) = (Inr ok2, w2)"
    and d2: "ok2 \<longrightarrow> (\<exists>ds. load_dataset env_online (length (requests (start []))) ''mbpp'' = Some ds \<and>
                   is_dir (fs w2) [''data'', ''raw'', ''mbpp''] \<and>
                   (\<forall>(n, c) \<in> set (arrow_files env_online ds).
                       is_file (fs w2) ([''data'', ''raw'', ''mbpp''] @ [n])))"
    and s2: "\<forall>ds f1. load_dataset env_online (length (requests (start []))) ''mbpp'' = Some ds \<longrightarrow>
         ds \<noteq> [] \<longrightarrow>
         mkdir_p (fs (start [])) [''data'', ''raw'', ''mbpp''] = Inr f1 \<longrightarrow>
         (\<forall>(n, c) \<in> set (arrow_files env_online ds).
             \<not> is_dir (fs (start [])) ([''data'', ''raw'', ''mbpp''] @ [n])) \<longrightarrow> ok2"
    by (elim exE conjE)
  from mbpp_online_ready s2 have ok2 by blast
  with r2 d2 have b: "fst (download_mbpp env_online (start [])) = Inr True \<and>
      is_dir (fs (snd (download_mbpp env_online (start [])))) [''data'', ''raw'', ''mbpp'']"
    by auto
  have m: "load_dataset env_online (length (requests (start []))) ''mbpp'' \<noteq> None"
    by (simp add: env_online_def)
  from cs have c: "requests (snd (download_codesearchnet_github (start []))) = []"
    by (simp add: start_def)
  from n a m b c show ?thesis by (intro conjI) (elim conjE, assumption)+
qed

theorem network_use_counterexample:
  "fst (download_codesearchnet_github (start [])) = Inr [''data'', ''raw'', ''codesearchnet''] \<and>
   requests (snd (download_codesearchnet_github (start []))) = [] \<and>
   is_file (fs (snd (download_codesearchnet_github (start []))))
     [''data'', ''raw'', ''codesearchnet'', ''README.txt'']"
  by (simp add: codesearchnet_fresh is_file_def lookup_def)

lemma download_run:
  "download_file_with_progress en url dest w =
     (case http_get en (length (requests w)) url of
        RequestFailed \<Rightarrow>
          (Inr False, w\<lparr>requests := requests w @ [HttpGet url],
                           out := out w @ [(''Error'', [E RequestException])]\<rparr>)
      | Streamed chunks broken \<Rightarrow>
          (case write_file (fs w) dest (concat chunks) of
             Inl e \<Rightarrow>
               (Inr False, w\<lparr>requests := requests w @ [HttpGet url],
                               out := out w @ [(''Error'', [E e])]\<rparr>)
           | Inr f' \<Rightarrow>
               if broken then
                 (Inr False, w\<lparr>requests := requests w @ [HttpGet url], fs := f',
                                 out := out w @ [(''Error'', [E ChunkedEncodingError])]\<rparr>)
               else
                 (Inr True, w\<lparr>requests := requests w @ [HttpGet url], fs := f'\<rparr>)))"
  by (simp add: download_file_with_progress_def try_except_run bind_run seq_run requests_get_run
                write_text_run
           split: http_response.splits sum.splits)

lemma write_file_exists:
  "write_file f p c = Inr f' \<Longrightarrow> exists_path f q \<Longrightarrow> exists_path f' q"
  by (simp add: exists_path_def write_file_lookup)

lemma write_file_frame: "write_file f p c = Inr f' \<Longrightarrow> frame (\<lambda>q. q = p) f f'"
  by (simp add: frame_def write_file_lookup)

text \<open>One download: never raises, makes exactly one request, removes nothing, and
  touches at most its destination.\<close>

lemma download_facts:
  "\<exists>ok w'. download_file_with_progress en url dest w = (Inr ok, w') \<and>
     requests w' = requests w @ [HttpGet url] \<and>
     (\<forall>q. exists_path (fs w) q \<longrightarrow> exists_path (fs w') q) \<and>
     frame (\<lambda>q. q = dest) (fs w) (fs w') \<and>
     (\<exists>ms. out w' = out w @ ms)"
proof (cases "http_get en (length (requests w)) url")
  case RequestFailed
  then show ?thesis by (auto simp: download_run)
next
  case (Streamed chunks broken)
  show ?thesis
  proof (cases "write_file (fs w) dest (concat chunks)")
    case (Inl e)
    with Streamed show ?thesis by (auto simp: download_run)
  next
    case (Inr f')
    with Streamed show ?thesis
      by (auto simp: download_run write_file_frame dest: write_file_exists)
  qed
qed

lemma fetched_Nil [simp]: "fetched f d [] = {}"
  by (simp add: fetched_def)

lemma fetched_Cons:
  "fetched f d ((fn, u) # rest) =
     (if exists_path f (d @ [fn]) then {} else {HttpGet u, HttpGet (alt_base @ fn)})
     \<union> fetched f d rest"
  by (simp add: fetched_def)

lemma fetched_antimono:
  assumes "\<forall>q. exists_path f q \<longrightarrow> exists_path g q"
  shows "fetched g d files \<subseteq> fetched f d files"
  using assms by (induction files) (auto simp: fetched_Cons split: if_splits)

lemma filter_length_mono:
  "(\<And>x. A x \<Longrightarrow> Q x) \<Longrightarrow> length (filter A xs) \<le> length (filter Q xs)"
  by (induction xs) auto

lemma count_list_append_notin:
  "c \<notin> set cs \<Longrightarrow> count_list (xs @ cs) c = count_list xs c"
  by (simp add: count_list_0_iff)

text \<open>One round of the loop: the counter grows by at most one, nothing is removed,
  only the file's own destination is touched, and requests go out only for a file
  that is not there.\<close>

lemma conala_step:
  "\<exists>k w1. conala_loop en d ((fn, u) # rest) success w = conala_loop en d rest (success + k) w1 \<and>
     k \<le> 1 \<and>
     (\<forall>q. exists_path (fs w) q \<longrightarrow> exists_path (fs w1) q) \<and>
     frame (\<lambda>q. q = d @ [fn]) (fs w) (fs w1) \<and>
     (\<exists>ms. out w1 = out w @ ms) \<and>
     (exists_path (fs w) (d @ [fn]) \<longrightarrow>
        k = 1 \<and> requests w1 = requests w \<and> fs w1 = fs w \<and>
        out w1 = out w @ [(''Already exists'', [S fn])]) \<and>
     (\<not> exists_path (fs w) (d @ [fn]) \<longrightarrow>
        (\<exists>cs. requests w1 = requests w @ cs \<and> set cs \<subseteq> {HttpGet u, HttpGet (alt_base @ fn)}))"
proof (cases "exists_path (fs w) (d @ [fn])")
  case True
  have "conala_loop en d ((fn, u) # rest) success w =
        conala_loop en d rest (success + 1) (w\<lparr>out := out w @ [(''Already exists'', [S fn])]\<rparr>)"
    using True by (simp add: bind_run seq_run Let_def)
  with True show ?thesis
    by (intro exI [of _ 1] exI [of _ "w\<lparr>out := out w @ [(''Already exists'', [S fn])]\<rparr>"]) simp
next
  case False
  let ?w0 = "w\<lparr>out := out w @ [(''Downloading'', [S fn])]\<rparr>"
  from download_facts [of en u "d @ [fn]" ?w0]
  obtain ok1 w1 where d1: "download_file_with_progress en u (d @ [fn]) ?w0 = (Inr ok1, w1)"
    and r1: "requests w1 = requests w @ [HttpGet u]"
    and e1: "\<forall>q. exists_path (fs w) q \<longrightarrow> exists_path (fs w1) q"
    and f1: "frame (\<lambda>q. q = d @ [fn]) (fs w) (fs w1)"
    and o1: "\<exists>ms. out w1 = out w @ ms"
    by auto
  show ?thesis
  proof (cases ok1)
    case True
    have "conala_loop en d ((fn, u) # rest) success w = conala_loop en d rest (success + 1) w1"
      using False d1 True by (simp add: bind_run seq_run Let_def)
    with False r1 e1 f1 o1 show ?thesis
      by (intro exI [of _ 1] exI [of _ w1]) auto
  next
    case ok1: False
    let ?w1 = "w1\<lparr>out := out w1 @ [(''Trying alternative URL'', [])]\<rparr>"
    from download_facts [of en "alt_base @ fn" "d @ [fn]" ?w1]
    obtain ok2 w2 where d2: "download_file_with_progress en (alt_base @ fn) (d @ [fn]) ?w1 = (Inr ok2, w2)"
      and r2: "requests w2 = requests w1 @ [HttpGet (alt_base @ fn)]"
      and e2: "\<forall>q. exists_path (fs w1) q \<longrightarrow> exists_path (fs w2) q"
      and f2: "frame (\<lambda>q. q = d @ [fn]) (fs w1) (fs w2)"
      and o2: "\<exists>ms. out w2 = out w1 @ ms"
      by auto
    from f1 f2 have f12: "frame (\<lambda>q. q = d @ [fn]) (fs w) (fs w2)" by (rule frame_trans)
    from e1 e2 have e12: "\<forall>q. exists_path (fs w) q \<longrightarrow> exists_path (fs w2) q" by blast
    from o1 o2 have o12: "\<exists>ms. out w2 = out w @ ms" by auto
    from r1 r2 have r12: "requests w2 = requests w @ [HttpGet u, HttpGet (alt_base @ fn)]" by simp
    show ?thesis
    proof (cases ok2)
      case True
      have "conala_loop en d ((fn, u) # rest) success w = conala_loop en d rest (success + 1) w2"
        using False d1 ok1 d2 True by (simp add: bind_run seq_run Let_def)
      with False r12 e12 f12 o12 show ?thesis
        by (intro exI [of _ 1] exI [of _ w2]) auto
    next
      case ok2: False
      let ?w2 = "w2\<lparr>out := out w2 @ [(''Could not download'', [S fn])]\<rparr>"
      have "conala_loop en d ((fn, u) # rest) success w = conala_loop en d rest (success + 0) ?w2"
        using False d1 ok1 d2 ok2 by (simp add: bind_run seq_run Let_def)
      moreover from o12 have "\<exists>ms. out ?w2 = out w @ ms" by auto
      ultimately show ?thesis using False r12 e12 f12
        by (intro exI [of _ 0] exI [of _ ?w2]) auto
    qed
  qed
qed

text \<open>The whole loop, for any list of files and from any state.\<close>

lemma conala_loop_facts:
  "\<exists>s w'. conala_loop en d files success w = (Inr s, w') \<and>
     success + length (filter (\<lambda>(fn, u). exists_path (fs w) (d @ [fn])) files) \<le> s \<and>
     s \<le> success + length files \<and>
     (\<forall>q. exists_path (fs w) q \<longrightarrow> exists_path (fs w') q) \<and>
     frame (\<lambda>q. \<exists>(fn, u) \<in> set files. q = d @ [fn] \<and> \<not> exists_path (fs w) q) (fs w) (fs w') \<and>
     (\<exists>ms. out w' = out w @ ms \<and>
        (\<forall>(fn, u) \<in> set files. exists_path (fs w) (d @ [fn]) \<longrightarrow>
            (''Already exists'', [S fn]) \<in> set ms)) \<and>
     (\<forall>c. c \<notin> fetched (fs w) d files \<longrightarrow> count_list (requests w') c = count_list (requests w) c)"
proof (induction files arbitrary: success w)
  case Nil
  show ?case by simp
next
  case (Cons entry rest)
  obtain fn u where entry: "entry = (fn, u)" by (cases entry)
  from conala_step [of en d fn u rest success w]
  obtain k w1 where step: "conala_loop en d ((fn, u) # rest) success w = conala_loop en d rest (success + k) w1"
    and k: "k \<le> 1"
    and e1: "\<forall>q. exists_path (fs w) q \<longrightarrow> exists_path (fs w1) q"
    and f1: "frame (\<lambda>q. q = d @ [fn]) (fs w) (fs w1)"
    and o1: "\<exists>ms. out w1 = out w @ ms"
    and here: "exists_path (fs w) (d @ [fn]) \<longrightarrow>
        k = 1 \<and> requests w1 = requests w \<and> fs w1 = fs w \<and>
        out w1 = out w @ [(''Already exists'', [S fn])]"
    and away: "\<not> exists_path (fs w) (d @ [fn]) \<longrightarrow>
        (\<exists>cs. requests w1 = requests w @ cs \<and> set cs \<subseteq> {HttpGet u, HttpGet (alt_base @ fn)})"
    by (elim exE conjE) blast
  from Cons.IH [of "success + k" w1]
  obtain s w' where run: "conala_loop en d rest (success + k) w1 = (Inr s, w')"
    and lo: "success + k + length (filter (\<lambda>(fn, u). exists_path (fs w1) (d @ [fn])) rest) \<le> s"
    and hi: "s \<le> success + k + length rest"
    and e2: "\<forall>q. exists_path (fs w1) q \<longrightarrow> exists_path (fs w') q"
    and f2: "frame (\<lambda>q. \<exists>(fn, u) \<in> set rest. q = d @ [fn] \<and> \<not> exists_path (fs w1) q)
               (fs w1) (fs w')"
    and o2: "\<exists>ms. out w' = out w1 @ ms \<and>
        (\<forall>(fn, u) \<in> set rest. exists_path (fs w1) (d @ [fn]) \<longrightarrow>
            (''Already exists'', [S fn]) \<in> set ms)"
    and c2: "\<forall>c. c \<notin> fetched (fs w1) d rest \<longrightarrow> count_list (requests w') c = count_list (requests w1) c"
    by (elim exE conjE) blast
  have r: "conala_loop en d (entry # rest) success w = (Inr s, w')"
    using step run by (simp add: entry)
  have mono: "length (filter (\<lambda>(fn, u). exists_path (fs w) (d @ [fn])) rest)
              \<le> length (filter (\<lambda>(fn, u). exists_path (fs w1) (d @ [fn])) rest)"
    by (rule filter_length_mono) (use e1 in auto)
  have lower: "success + length (filter (\<lambda>(fn, u). exists_path (fs w) (d @ [fn])) (entry # rest)) \<le> s"
    using lo mono here by (auto simp: entry)
  have upper: "s \<le> success + length (entry # rest)"
    using hi k by simp
  have ex: "\<forall>q. exists_path (fs w) q \<longrightarrow> exists_path (fs w') q"
    using e1 e2 by blast
  have fr: "frame (\<lambda>q. \<exists>(fn, u) \<in> set (entry # rest). q = d @ [fn] \<and> \<not> exists_path (fs w) q)
              (fs w) (fs w')"
  proof (rule frame_trans)
    show "frame (\<lambda>q. \<exists>(fn, u) \<in> set (entry # rest). q = d @ [fn] \<and> \<not> exists_path (fs w) q)
            (fs w) (fs w1)"
    proof (cases "exists_path (fs w) (d @ [fn])")
      case True
      with here show ?thesis by simp
    next
      case False
      from f1 show ?thesis by (rule frame_mono) (use False in \<open>simp add: entry\<close>)
    qed
    show "frame (\<lambda>q. \<exists>(fn, u) \<in> set (entry # rest). q = d @ [fn] \<and> \<not> exists_path (fs w) q)
            (fs w1) (fs w')"
      using f2 by (rule frame_mono) (use e1 in auto)
  qed
  obtain ms1 where m1: "out w1 = out w @ ms1" using o1 by blast
  obtain ms2 where m2: "out w' = out w1 @ ms2"
    and a2: "\<forall>(fn, u) \<in> set rest. exists_path (fs w1) (d @ [fn]) \<longrightarrow>
            (''Already exists'', [S fn]) \<in> set ms2"
    using o2 by blast
  have ou: "\<exists>ms. out w' = out w @ ms \<and>
        (\<forall>(fn, u) \<in> set (entry # rest). exists_path (fs w) (d @ [fn]) \<longrightarrow>
            (''Already exists'', [S fn]) \<in> set ms)"
  proof (intro exI [of _ "ms1 @ ms2"] conjI)
    show "out w' = out w @ ms1 @ ms2" by (simp add: m1 m2)
    have first: "exists_path (fs w) (d @ [fn]) \<longrightarrow> (''Already exists'', [S fn]) \<in> set (ms1 @ ms2)"
      using here m1 by auto
    have others: "\<forall>(fn, u) \<in> set rest. exists_path (fs w) (d @ [fn]) \<longrightarrow>
         (''Already exists'', [S fn]) \<in> set (ms1 @ ms2)"
      using a2 e1 by auto
    from first others
    show "\<forall>(fn, u) \<in> set (entry # rest). exists_path (fs w) (d @ [fn]) \<longrightarrow>
            (''Already exists'', [S fn]) \<in> set (ms1 @ ms2)"
      by (simp add: entry)
  qed
  have cn: "\<forall>c. c \<notin> fetched (fs w) d (entry # rest) \<longrightarrow>
              count_list (requests w') c = count_list (requests w) c"
  proof (intro allI impI)
    fix c
    assume c: "c \<notin> fetched (fs w) d (entry # rest)"
    then have crest: "c \<notin> fetched (fs w) d rest" by (simp add: entry fetched_Cons)
    with fetched_antimono [OF e1, of d rest] have "c \<notin> fetched (fs w1) d rest" by blast
    with c2 have t: "count_list (requests w') c = count_list (requests w1) c" by blast
    have "count_list (requests w1) c = count_list (requests w) c"
    proof (cases "exists_path (fs w) (d @ [fn])")
      case True
      with here show ?thesis by simp
    next
      case False
      with away obtain cs where cs: "requests w1 = requests w @ cs"
        and sub: "set cs \<subseteq> {HttpGet u, HttpGet (alt_base @ fn)}"
        by blast
      from c False have "c \<notin> {HttpGet u, HttpGet (alt_base @ fn)}"
        by (simp add: entry fetched_Cons)
      with sub have "c \<notin> set cs" by blast
      then show ?thesis by (simp add: cs count_list_append_notin)
    qed
    with t show "count_list (requests w') c = count_list (requests w) c" by simp
  qed
  from r lower upper ex fr ou cn show ?case by blast
qed

lemma conala_run:
  "download_conala_correct_urls en w =
     (case mkdir_p (fs w) (BASE_DIR @ [''conala'']) of
        Inl e \<Rightarrow> (Inl e, w)
      | Inr f1 \<Rightarrow>
          (case conala_loop en (BASE_DIR @ [''conala'']) conala_files 0 (w\<lparr>fs := f1\<rparr>) of
             (Inl e, w2) \<Rightarrow> (Inl e, w2)
           | (Inr s, w2) \<Rightarrow>
               if s = 0 then
                 (case write_file (fs w2) (BASE_DIR @ [''conala'', ''conala-synthetic.json''])
                         (json_dumps en (JList synthetic_data)) of
                    Inl e \<Rightarrow>
                      (Inl e, w2\<lparr>out := out w2 @
                                  [(''Creating synthetic CoNaLa-style data for demo'', [])]\<rparr>)
                  | Inr f3 \<Rightarrow>
                      (Inr (BASE_DIR @ [''conala'']),
                       w2\<lparr>fs := f3,
                          out := out w2 @
                            [(''Creating synthetic CoNaLa-style data for demo'', []),
                             (''Created synthetic dataset'',
                              [P (BASE_DIR @ [''conala'', ''conala-synthetic.json''])])]\<rparr>))
               else
                 (Inr (BASE_DIR @ [''conala'']),
                  w2\<lparr>out := out w2 @ [(''Downloaded CoNaLa files'', [N s, N 3])]\<rparr>)))"
  by (simp add: download_conala_correct_urls_def Let_def seq_run bind_run mkdir_run write_text_run
           split: sum.splits prod.splits)

lemma not_fetched:
  "(filename, url) \<in> set conala_files \<Longrightarrow> exists_path f (d @ [filename]) \<Longrightarrow>
   HttpGet url \<notin> fetched f d conala_files \<and> HttpGet (alt_base @ filename) \<notin> fetched f d conala_files"
  by (auto simp: conala_files_def fetched_def alt_base_def)

lemma filter_length_pos: "x \<in> set xs \<Longrightarrow> Q x \<Longrightarrow> 1 \<le> length (filter Q xs)"
  by (induction xs) auto

lemma conala_loop_all_round:
  "\<exists>s w'. conala_loop en d files 0 w = (Inr s, w') \<and>
     length (filter (\<lambda>(fn, u). exists_path (fs w) (d @ [fn])) files) \<le> s \<and>
     s \<le> length files \<and>
     frame (\<lambda>q. \<exists>(fn, u) \<in> set files. q = d @ [fn] \<and> \<not> exists_path (fs w) q) (fs w) (fs w') \<and>
     (\<exists>ms. out w' = out w @ ms \<and>
        (\<forall>(fn, u) \<in> set files. exists_path (fs w) (d @ [fn]) \<longrightarrow>
            (''Already exists'', [S fn]) \<in> set ms)) \<and>
     (\<forall>c. c \<notin> fetched (fs w) d files \<longrightarrow> count_list (requests w') c = count_list (requests w) c)"
  using conala_loop_facts [of en d files 0 w] by auto

text \<open>
  Claim C5. A file of the CoNaLa fetch whose destination exists when the routine
  starts, whatever is stored there, causes no request to either of its addresses and
  is left untouched; when the routine returns, it has printed that the file already
  exists and its count of successes, which it prints last, is at least the number of
  files that were already there (hence at least one) and at most three.
\<close>

theorem existing_files_skipped:
  assumes "(filename, url) \<in> set conala_files"
    and "exists_path (fs w) (BASE_DIR @ [''conala'', filename])"
  shows "count_list (requests (snd (download_conala_correct_urls en w))) (HttpGet url)
           = count_list (requests w) (HttpGet url) \<and>
         count_list (requests (snd (download_conala_correct_urls en w))) (HttpGet (alt_base @ filename))
           = count_list (requests w) (HttpGet (alt_base @ filename)) \<and>
         lookup (fs (snd (download_conala_correct_urls en w))) (BASE_DIR @ [''conala'', filename])
           = lookup (fs w) (BASE_DIR @ [''conala'', filename]) \<and>
         (\<forall>p w'. download_conala_correct_urls en w = (Inr p, w') \<longrightarrow>
            (''Already exists'', [S filename]) \<in> set (drop (length (out w)) (out w')) \<and>
            (\<exists>s. length (filter (\<lambda>(fn, u). exists_path (fs w) (BASE_DIR @ [''conala'', fn]))
                                conala_files) \<le> s \<and>
                 1 \<le> s \<and> s \<le> 3 \<and>
                 last (out w') = (''Downloaded CoNaLa files'', [N s, N 3])))"
proof (cases "mkdir_p (fs w) (BASE_DIR @ [''conala''])")
  case (Inl e)
  then show ?thesis by (simp add: conala_run)
next
  case (Inr f1)
  let ?d = "BASE_DIR @ [''conala'']"
  let ?w1 = "w\<lparr>fs := f1\<rparr>"
  have dest: "\<And>fn. BASE_DIR @ [''conala'', fn] = ?d @ [fn]" by simp
  from assms(2) obtain x where x: "lookup (fs w) (?d @ [filename]) = Some x"
    by (auto simp: exists_path_def)
  with Inr have x1: "lookup f1 (?d @ [filename]) = Some x" by (rule mkdir_p_keeps)
  then have ex1: "exists_path (fs ?w1) (?d @ [filename])" by (simp add: exists_path_def)
  from conala_loop_all_round [of en ?d conala_files ?w1]
  obtain s w2 ms where run: "conala_loop en ?d conala_files 0 ?w1 = (Inr s, w2)"
    and lower: "length (filter (\<lambda>(fn, u). exists_path (fs ?w1) (?d @ [fn])) conala_files) \<le> s"
    and upper: "s \<le> length conala_files"
    and fr: "frame (\<lambda>q. \<exists>(fn, u) \<in> set conala_files. q = ?d @ [fn] \<and> \<not> exists_path (fs ?w1) q)
               (fs ?w1) (fs w2)"
    and ms: "out w2 = out ?w1 @ ms"
    and ae: "\<forall>(fn, u) \<in> set conala_files. exists_path (fs ?w1) (?d @ [fn]) \<longrightarrow>
            (''Already exists'', [S fn]) \<in> set ms"
    and cn: "\<forall>c. c \<notin> fetched (fs ?w1) ?d conala_files \<longrightarrow>
               count_list (requests w2) c = count_list (requests ?w1) c"
    by (elim exE conjE)
  from not_fetched [OF assms(1) ex1] cn
  have c1: "count_list (requests w2) (HttpGet url) = count_list (requests w) (HttpGet url)"
    and c2: "count_list (requests w2) (HttpGet (alt_base @ filename))
             = count_list (requests w) (HttpGet (alt_base @ filename))"
    by auto
  from fr ex1 have "lookup (fs w2) (?d @ [filename]) = lookup (fs ?w1) (?d @ [filename])"
    unfolding frame_def by blast
  with x x1 have l: "lookup (fs w2) (?d @ [filename]) = lookup (fs w) (?d @ [filename])" by simp
  have "1 \<le> length (filter (\<lambda>(fn, u). exists_path (fs ?w1) (?d @ [fn])) conala_files)"
    by (rule filter_length_pos [OF assms(1)]) (use ex1 in simp)
  with lower have s1: "1 \<le> s" by simp
  have "length (filter (\<lambda>(fn, u). exists_path (fs w) (?d @ [fn])) conala_files)
        \<le> length (filter (\<lambda>(fn, u). exists_path (fs ?w1) (?d @ [fn])) conala_files)"
    by (rule filter_length_mono) (use Inr in \<open>auto simp: exists_path_def dest: mkdir_p_keeps\<close>)
  with lower have s2: "length (filter (\<lambda>(fn, u). exists_path (fs w) (?d @ [fn])) conala_files) \<le> s"
    by simp
  from upper have s3: "s \<le> 3" by (simp add: conala_files_def)
  from assms(1) ae ex1 have in_ms: "(''Already exists'', [S filename]) \<in> set ms" by auto
  have res: "download_conala_correct_urls en w =
      (Inr ?d, w2\<lparr>out := out w2 @ [(''Downloaded CoNaLa files'', [N s, N 3])]\<rparr>)"
    using Inr run s1 by (simp add: conala_run)
  have o: "out w2 = out w @ ms" using ms by simp
  from res c1 c2 l s1 s2 s3 in_ms o show ?thesis
    unfolding dest by auto
qed

lemma train_run:
  "fst (download_conala_correct_urls env_offline (start fs_train)) = Inr [''data'', ''raw'', ''conala'']"
  by (simp add: conala_run mkdir_p.simps lookup_def exists_path_def fs_train_def BASE_DIR_def
                start_def conala_files_def download_run env_offline_def bind_run seq_run Let_def)

theorem existing_files_skipped_witness:
  "(''conala-train.json'',
    ''https://raw.githubusercontent.com/conala-corpus/conala-corpus/master/conala-train.json'')
     \<in> set conala_files \<and>
   exists_path (fs (start fs_train)) (BASE_DIR @ [''conala'', ''conala-train.json'']) \<and>
   fst (download_conala_correct_urls env_offline (start fs_train)) = Inr [''data'', ''raw'', ''conala''] \<and>
   lookup (fs (snd (download_conala_correct_urls env_offline (start fs_train))))
      (BASE_DIR @ [''conala'', ''conala-train.json'']) = Some (File ''stale'') \<and>
   (''Already exists'', [S ''conala-train.json''])
      \<in> set (out (snd (download_conala_correct_urls env_offline (start fs_train))))"
proof -
  have m: "(''conala-train.json'',
    ''https://raw.githubusercontent.com/conala-corpus/conala-corpus/master/conala-train.json'')
     \<in> set conala_files"
    by (simp add: conala_files_def)
  have e: "exists_path (fs (start fs_train)) (BASE_DIR @ [''conala'', ''conala-train.json''])"
    by (simp add: exists_path_def lookup_def fs_train_def BASE_DIR_def start_def)
  have l0: "lookup (fs (start fs_train)) (BASE_DIR @ [''conala'', ''conala-train.json''])
            = Some (File ''stale'')"
    by (simp add: lookup_def fs_train_def BASE_DIR_def start_def)
  have o0: "out (start fs_train) = []" by (simp add: start_def)
  note th = existing_files_skipped [OF m e, of env_offline]
  from th l0 have l: "lookup (fs (snd (download_conala_correct_urls env_offline (start fs_train))))
      (BASE_DIR @ [''conala'', ''conala-train.json'']) = Some (File ''stale'')"
    by simp
  have r: "download_conala_correct_urls env_offline (start fs_train) =
      (Inr [''data'', ''raw'', ''conala''], snd (download_conala_correct_urls env_offline (start fs_train)))"
    using train_run by (simp add: prod_eq_iff)
  from th [THEN conjunct2, THEN conjunct2, THEN conjunct2, rule_format, OF r]
  have "(''Already exists'', [S ''conala-train.json''])
      \<in> set (out (snd (download_conala_correct_urls env_offline (start fs_train))))"
    by (simp add: o0)
  with m e train_run l show ?thesis by blast
qed

lemma write_file_onto_dir:
  "is_dir f d \<Longrightarrow> is_dir f (d @ [n]) \<Longrightarrow> write_file f (d @ [n]) c = Inl IsADirectoryError"
  by (simp add: write_file_def is_dir_def)

lemma synthetic_data_shape:
  "length synthetic_data = 50 \<and>
   (\<forall>i<50. synthetic_data ! i =
      JObj [(''question_id'', JInt (int i)),
            (''intent'', JStr ''Sort a list of numbers in ascending order''),
            (''snippet'', JStr ''sorted_list = sorted(numbers)'')])"
  by (simp add: synthetic_data_def)

text \<open>The loop leaves the directory and the name of the synthetic file alone.\<close>

lemma conala_loop_leaves:
  assumes "conala_loop en (BASE_DIR @ [''conala'']) conala_files 0 w = (r, w2)"
  shows "lookup (fs w2) (BASE_DIR @ [''conala'']) = lookup (fs w) (BASE_DIR @ [''conala'']) \<and>
         lookup (fs w2) ((BASE_DIR @ [''conala'']) @ [''conala-synthetic.json''])
           = lookup (fs w) ((BASE_DIR @ [''conala'']) @ [''conala-synthetic.json''])"
proof -
  let ?d = "BASE_DIR @ [''conala'']"
  from conala_loop_all_round [of en ?d conala_files w] assms
  have fr: "frame (\<lambda>q. \<exists>(fn, u) \<in> set conala_files. q = ?d @ [fn] \<and> \<not> exists_path (fs w) q)
               (fs w) (fs w2)"
    by auto
  have a: "\<not> (\<exists>(fn, u) \<in> set conala_files. ?d = ?d @ [fn] \<and> \<not> exists_path (fs w) ?d)"
    by auto
  have b: "\<not> (\<exists>(fn, u) \<in> set conala_files.
               ?d @ [''conala-synthetic.json''] = ?d @ [fn] \<and>
               \<not> exists_path (fs w) (?d @ [''conala-synthetic.json'']))"
    by (auto simp: conala_files_def)
  from fr a b show ?thesis unfolding frame_def by blast
qed

text \<open>
  Claim C6, as the code has it. When the routine has made its directory and the loop
  over the three files ends with the success count zero (both addresses failed for
  every file), then: if the name conala-synthetic.json is not taken by a directory,
  the routine writes there the serialised list of exactly 50 literal records and
  returns its directory without raising; if the name is taken by a directory, the
  write raises IsADirectoryError out of the routine.
\<close>

theorem synthetic_fallback:
  assumes "mkdir_p (fs w) (BASE_DIR @ [''conala'']) = Inr f1"
    and "conala_loop en (BASE_DIR @ [''conala'']) conala_files 0 (w\<lparr>fs := f1\<rparr>) = (Inr 0, w2)"
  shows "(\<not> is_dir (fs w) (BASE_DIR @ [''conala'', ''conala-synthetic.json'']) \<longrightarrow>
          (\<exists>w'. download_conala_correct_urls en w = (Inr (BASE_DIR @ [''conala'']), w') \<and>
             lookup (fs w') (BASE_DIR @ [''conala'', ''conala-synthetic.json''])
               = Some (File (json_dumps en (JList synthetic_data))) \<and>
             length synthetic_data = 50 \<and>
             (\<forall>i<50. synthetic_data ! i =
                JObj [(''question_id'', JInt (int i)),
                      (''intent'', JStr ''Sort a list of numbers in ascending order''),
                      (''snippet'', JStr ''sorted_list = sorted(numbers)'')]))) \<and>
         (is_dir (fs w) (BASE_DIR @ [''conala'', ''conala-synthetic.json'']) \<longrightarrow>
          fst (download_conala_correct_urls en w) = Inl IsADirectoryError)"
proof -
  let ?d = "BASE_DIR @ [''conala'']"
  let ?s = "?d @ [''conala-synthetic.json'']"
  let ?c = "json_dumps en (JList synthetic_data)"
  have sp: "BASE_DIR @ [''conala'', ''conala-synthetic.json''] = ?s" by simp
  from conala_loop_leaves [OF assms(2)]
  have ld: "lookup (fs w2) ?d = lookup f1 ?d" and ls: "lookup (fs w2) ?s = lookup f1 ?s"
    by simp_all
  from assms(1) have "is_dir f1 ?d" by (rule mkdir_p_is_dir)
  with ld have d2: "is_dir (fs w2) ?d" by (simp add: is_dir_def)
  from ls mkdir_p_child [OF assms(1), of "''conala-synthetic.json''"]
  have s2: "is_dir (fs w2) ?s = is_dir (fs w) ?s" by (simp add: is_dir_def)
  show ?thesis
  proof (intro conjI impI)
    assume "\<not> is_dir (fs w) (BASE_DIR @ [''conala'', ''conala-synthetic.json''])"
    with s2 have n: "\<not> is_dir (fs w2) ?s" by simp
    have wf: "write_file (fs w2) ?s ?c = Inr (AList.update ?s (File ?c) (fs w2))"
      by (rule write_file_child [OF d2 n])
    have lk: "lookup (AList.update ?s (File ?c) (fs w2)) ?s = Some (File ?c)"
      by (simp add: lookup_update)
    from assms wf lk synthetic_data_shape
    show "\<exists>w'. download_conala_correct_urls en w = (Inr (BASE_DIR @ [''conala'']), w') \<and>
             lookup (fs w') (BASE_DIR @ [''conala'', ''conala-synthetic.json''])
               = Some (File (json_dumps en (JList synthetic_data))) \<and>
             length synthetic_data = 50 \<and>
             (\<forall>i<50. synthetic_data ! i =
                JObj [(''question_id'', JInt (int i)),
                      (''intent'', JStr ''Sort a list of numbers in ascending order''),
                      (''snippet'', JStr ''sorted_list = sorted(numbers)'')])"
      unfolding sp by (simp add: conala_run)
  next
    assume "is_dir (fs w) (BASE_DIR @ [''conala'', ''conala-synthetic.json''])"
    with s2 have y: "is_dir (fs w2) ?s" by simp
    have wf: "write_file (fs w2) ?s ?c = Inl IsADirectoryError"
      by (rule write_file_onto_dir [OF d2 y])
    from assms wf show "fst (download_conala_correct_urls en w) = Inl IsADirectoryError"
      by (simp add: conala_run)
  qed
qed

lemma offline_loop:
  "fst (conala_loop env_offline (BASE_DIR @ [''conala'']) conala_files 0
          ((start [])\<lparr>fs := [([''data''], Dir), ([''data'', ''raw''], Dir),
                               ([''data'', ''raw'', ''conala''], Dir)]\<rparr>)) = Inr 0"
  by (simp add: lookup_def exists_path_def BASE_DIR_def start_def conala_files_def download_run
                env_offline_def bind_run seq_run Let_def)

theorem synthetic_fallback_witness:
  "mkdir_p (fs (start [])) (BASE_DIR @ [''conala'']) =
     Inr [([''data''], Dir), ([''data'', ''raw''], Dir), ([''data'', ''raw'', ''conala''], Dir)] \<and>
   fst (conala_loop env_offline (BASE_DIR @ [''conala'']) conala_files 0
          ((start [])\<lparr>fs := [([''data''], Dir), ([''data'', ''raw''], Dir),
                               ([''data'', ''raw'', ''conala''], Dir)]\<rparr>)) = Inr 0 \<and>
   \<not> is_dir (fs (start [])) (BASE_DIR @ [''conala'', ''conala-synthetic.json'']) \<and>
   (\<exists>w'. download_conala_correct_urls env_offline (start []) = (Inr (BASE_DIR @ [''conala'']), w') \<and>
      lookup (fs w') (BASE_DIR @ [''conala'', ''conala-synthetic.json''])
        = Some (File (json_dumps env_offline (JList synthetic_data))) \<and>
      length synthetic_data = 50)"
proof -
  let ?f1 = "[([''data''], Dir), ([''data'', ''raw''], Dir), ([''data'', ''raw'', ''conala''], Dir)]"
  let ?w1 = "(start [])\<lparr>fs := ?f1\<rparr>"
  have m: "mkdir_p (fs (start [])) (BASE_DIR @ [''conala'']) = Inr ?f1"
    by (simp add: mkdir_p.simps lookup_def BASE_DIR_def start_def)
  have l: "conala_loop env_offline (BASE_DIR @ [''conala'']) conala_files 0 ?w1 =
           (Inr 0, snd (conala_loop env_offline (BASE_DIR @ [''conala'']) conala_files 0 ?w1))"
    using offline_loop by (simp add: prod_eq_iff)
  have n: "\<not> is_dir (fs (start [])) (BASE_DIR @ [''conala'', ''conala-synthetic.json''])"
    by (simp add: is_dir_def lookup_def BASE_DIR_def start_def)
  from synthetic_fallback [OF m l, THEN conjunct1, rule_format, OF n]
  have "\<exists>w'. download_conala_correct_urls env_offline (start []) = (Inr (BASE_DIR @ [''conala'']), w') \<and>
      lookup (fs w') (BASE_DIR @ [''conala'', ''conala-synthetic.json''])
        = Some (File (json_dumps env_offline (JList synthetic_data))) \<and>
      length synthetic_data = 50"
    by blast
  with m offline_loop n show ?thesis by blast
qed

theorem synthetic_fallback_counterexample:
  "fst (conala_loop env_offline (BASE_DIR @ [''conala'']) conala_files 0 (start fs_synth_dir)) = Inr 0 \<and>
   fst (download_conala_correct_urls env_offline (start fs_synth_dir)) = Inl IsADirectoryError"
  by (simp add: conala_run mkdir_p.simps write_file_def is_dir_def lookup_def exists_path_def
                fs_synth_dir_def BASE_DIR_def start_def conala_files_def download_run
                env_offline_def bind_run seq_run Let_def)

end
